theory Spec2Isabelle
  imports Complex_Main "HOL-Library.AList"
begin

section \<open>Diffusion policy (robomimic/algo/diffusion\_policy.py): a shallow embedding\<close>

text \<open>
  The class \<^verbatim>\<open>DiffusionPolicyUNet\<close> is modelled by explicit state passing. Every method
  takes the object state and returns an outcome together with the state it leaves
  behind: a Python exception leaves the mutations made before the \<^verbatim>\<open>raise\<close> in place,
  so the state is returned on the error path as well.

  Tensors of rank three (batch, time, action dimension) are nested lists of reals.
  The neural networks, the noise scheduler and the optimiser are external
  collaborators: they are the fields of an environment record, and nothing is assumed
  about them except where a theorem says so.
\<close>

subsection \<open>Exceptions\<close>

text \<open>
  The assertion that failed is part of the error value, since
  \<^verbatim>\<open>_get_action_trajectory\<close> has three \<^verbatim>\<open>assert\<close> statements.
\<close>

datatype assert_site =
    NetsTraining   \<comment> \<open>\<^verbatim>\<open>assert not self.nets.training\<close>\<close>
  | ObsNdim        \<comment> \<open>\<^verbatim>\<open>assert inputs["obs"][k].ndim - 2 == len(self.obs_shapes[k])\<close>\<close>
  | FeaturesNdim   \<comment> \<open>\<^verbatim>\<open>assert obs_features.ndim == 3\<close>\<close>
  | SuperTrain     \<comment> \<open>an assertion of the base class's \<^verbatim>\<open>train_on_batch\<close>\<close>

datatype error =
    ValueError
  | AssertionError assert_site
  | IndexError
  | KeyError
  | TypeError
  | AttributeError
  | RuntimeError

subsection \<open>Python containers\<close>

text \<open>
  \<^verbatim>\<open>collections.deque(maxlen=n)\<close>: a bounded deque. The constructor raises
  \<^verbatim>\<open>ValueError\<close> for a negative bound. Appending to a full deque discards the
  element at the left end, and a deque of bound zero discards everything appended.
  \<^verbatim>\<open>extend\<close> appends the elements one by one; \<^verbatim>\<open>popleft\<close> raises
  \<^verbatim>\<open>IndexError\<close> on the empty deque.
\<close>

record 'a deque =
  items :: "'a list"
  maxlen :: nat

definition deque_new :: "int \<Rightarrow> error + 'a deque" where
  "deque_new n = (if n < 0 then Inl ValueError else Inr \<lparr>items = [], maxlen = nat n\<rparr>)"

definition deque_append :: "'a deque \<Rightarrow> 'a \<Rightarrow> 'a deque" where
  "deque_append d x =
     (if maxlen d = 0 then d
      else if length (items d) = maxlen d then d\<lparr>items := tl (items d) @ [x]\<rparr>
      else d\<lparr>items := items d @ [x]\<rparr>)"

definition deque_extend :: "'a deque \<Rightarrow> 'a list \<Rightarrow> 'a deque" where
  "deque_extend d xs = foldl deque_append d xs"

definition deque_popleft :: "'a deque \<Rightarrow> error + ('a \<times> 'a deque)" where
  "deque_popleft d =
     (case items d of
        [] \<Rightarrow> Inl IndexError
      | x # xs \<Rightarrow> Inr (x, d\<lparr>items := xs\<rparr>))"

text \<open>
  The slice \<^verbatim>\<open>xs[start:end]\<close> of Python and of torch: a negative bound counts from
  the end, both bounds are clamped to the length, and the slice is empty when the
  upper bound is not above the lower one.
\<close>

definition slice_index :: "nat \<Rightarrow> int \<Rightarrow> nat" where
  "slice_index n i = (if i < 0 then nat (max 0 (int n + i)) else min (nat i) n)"

definition py_slice :: "int \<Rightarrow> int \<Rightarrow> 'a list \<Rightarrow> 'a list" where
  "py_slice start end xs =
     (let lo = slice_index (length xs) start;
          hi = slice_index (length xs) end
      in take (hi - lo) (drop lo xs))"

subsection \<open>Tensors, configuration and object state\<close>

type_synonym action = "real list"             \<comment> \<open>shape \<open>[Da]\<close>\<close>
type_synonym tensor3 = "real list list list"  \<comment> \<open>shape \<open>[B, T, Da]\<close>\<close>

text \<open>An observation dictionary: modality name to a tensor \<open>[B, T, ...]\<close>.\<close>

type_synonym 'x obs_dict = "(string \<times> 'x list list) list"

text \<open>
  The noise predictor is called with one diffusion step for the whole batch at
  inference and with one step per batch element in training.
\<close>

datatype timestep = Step nat | Steps "nat list"

record config =
  observation_horizon :: int
  action_horizon :: int
  prediction_horizon :: int
  ddpm_enabled :: bool
  ddpm_num_inference_timesteps :: int
  ddim_enabled :: bool
  ddim_num_inference_timesteps :: int

record 'p ema_model =
  averaged_model :: 'p
  optimization_step :: nat

text \<open>
  The attributes of a \<^verbatim>\<open>DiffusionPolicyUNet\<close> object. \<open>training\<close> is
  \<^verbatim>\<open>self.nets.training\<close>; \<open>timesteps\<close> is the mutable step sequence of the noise
  scheduler; \<open>rng_pos\<close> is the position of torch's global random generator in its
  stream of draws. The queues are \<^verbatim>\<open>None\<close> until \<^verbatim>\<open>reset\<close> is called.

  \<open>sampler_log\<close> is a ghost field, absent from the source: it records the
  \<^verbatim>\<open>obs_dict\<close> argument of every call of \<^verbatim>\<open>_get_action_trajectory\<close>, so that
  the number and the arguments of the sampler invocations can be stated.
\<close>

record ('p, 'x, 'q, 'l) algo =
  algo_config :: config
  ac_dim :: int
  nets :: 'p
  training :: bool
  ema :: "'p ema_model option"
  optimizers :: "(string \<times> 'q) list"
  lr_schedulers :: "(string \<times> 'l option) list"
  num_train_timesteps :: int
  timesteps :: "nat list"
  action_check_done :: bool
  obs_queue :: "'x obs_dict deque option"
  action_queue :: "action deque option"
  rng_pos :: nat
  sampler_log :: "'x obs_dict list"

text \<open>
  The external collaborators. \<open>obs_ndim_ok\<close> is the loop of rank assertions over
  \<^verbatim>\<open>self.obs_shapes\<close> (a table of the base class); \<open>obs_encoder\<close> is
  \<^verbatim>\<open>TensorUtils.time_distributed(inputs, nets["policy"]["obs_encoder"])\<close>,
  \<open>feat_ndim\<close> and \<open>feat_batch\<close> read \<^verbatim>\<open>ndim\<close> and \<^verbatim>\<open>shape[0]\<close> of its
  result, \<open>flatten_feat\<close> is \<^verbatim>\<open>flatten(start_dim=1)\<close>. \<open>gauss\<close> is the stream of
  standard normal draws and \<open>rand_int\<close> the stream of integer draws of the random
  generator. \<open>set_timesteps\<close>, \<open>sched_step\<close> and \<open>add_noise\<close> are the noise
  scheduler; \<open>super_train_on_batch\<close> is the base class's \<^verbatim>\<open>train_on_batch\<close>
  (arguments: \<open>validate\<close>, \<open>training\<close>), which returns an empty info dictionary
  unless it raises.
\<close>

record ('p, 'x, 'f, 'c, 'q) env =
  obs_ndim_ok :: "'x obs_dict \<Rightarrow> bool"
  obs_encoder :: "'p \<Rightarrow> 'x obs_dict \<Rightarrow> 'x obs_dict option \<Rightarrow> 'f"
  feat_ndim :: "'f \<Rightarrow> nat"
  feat_batch :: "'f \<Rightarrow> nat"
  flatten_feat :: "'f \<Rightarrow> 'c"
  noise_pred_net :: "'p \<Rightarrow> tensor3 \<Rightarrow> timestep \<Rightarrow> 'c \<Rightarrow> tensor3"
  gauss :: "nat \<Rightarrow> real"
  rand_int :: "nat \<Rightarrow> nat \<Rightarrow> nat"
  set_timesteps :: "int \<Rightarrow> nat list"
  sched_step :: "tensor3 \<Rightarrow> nat \<Rightarrow> tensor3 \<Rightarrow> tensor3"
  add_noise :: "tensor3 \<Rightarrow> tensor3 \<Rightarrow> nat list \<Rightarrow> tensor3"
  mse_loss :: "tensor3 \<Rightarrow> tensor3 \<Rightarrow> real"
  backprop_for_loss :: "'p \<Rightarrow> 'q \<Rightarrow> real \<Rightarrow> 'p \<times> 'q \<times> real"
  ema_step :: "'p ema_model \<Rightarrow> 'p \<Rightarrow> 'p ema_model"
  super_train_on_batch :: "bool \<Rightarrow> bool \<Rightarrow> error option"

text \<open>
  \<^verbatim>\<open>torch.randn((B, T, D))\<close>: the next \<open>B * T * D\<close> draws of the generator, in
  row-major order.
\<close>

definition randn :: "(nat \<Rightarrow> real) \<Rightarrow> nat \<Rightarrow> nat \<Rightarrow> nat \<Rightarrow> nat \<Rightarrow> tensor3" where
  "randn g pos B T D =
     map (\<lambda>b. map (\<lambda>t. map (\<lambda>d. g (pos + (b * T + t) * D + d)) [0..<D]) [0..<T]) [0..<B]"

subsection \<open>Rollout: \<^verbatim>\<open>reset\<close>, \<^verbatim>\<open>_get_action_trajectory\<close>, \<^verbatim>\<open>get_action\<close>\<close>

definition reset ::
  "('p, 'x, 'q, 'l) algo \<Rightarrow> (error + unit) \<times> ('p, 'x, 'q, 'l) algo" where
  "reset s =
     (let To = observation_horizon (algo_config s);
          Ta = action_horizon (algo_config s)
      in case deque_new To of
           Inl e \<Rightarrow> (Inl e, s)
         | Inr obs_q \<Rightarrow>
             (case deque_new Ta of
                Inl e \<Rightarrow> (Inl e, s)
              | Inr action_q \<Rightarrow>
                  (Inr (), s\<lparr>obs_queue := Some obs_q, action_queue := Some action_q\<rparr>)))"

text \<open>
  The choice of \<^verbatim>\<open>num_inference_timesteps\<close>: the if/elif chain on the two
  \<^verbatim>\<open>enabled\<close> flags, with \<^verbatim>\<open>raise ValueError\<close> in the last branch.
\<close>

definition num_inference_timesteps :: "config \<Rightarrow> error + int" where
  "num_inference_timesteps cfg =
     (if ddpm_enabled cfg then Inr (ddpm_num_inference_timesteps cfg)
      else if ddim_enabled cfg then Inr (ddim_num_inference_timesteps cfg)
      else Inl ValueError)"

text \<open>
  \<^verbatim>\<open>nets = self.nets; if self.ema is not None: nets = self.ema.averaged_model\<close>
\<close>

definition select_nets :: "('p, 'x, 'q, 'l) algo \<Rightarrow> 'p" where
  "select_nets s = (case ema s of None \<Rightarrow> nets s | Some e \<Rightarrow> averaged_model e)"

text \<open>
  The reverse diffusion loop \<^verbatim>\<open>for k in self.noise_scheduler.timesteps\<close>: predict the
  noise with the selected networks, then take the scheduler's step.
\<close>

fun denoise ::
  "('p, 'x, 'f, 'c, 'q) env \<Rightarrow> 'p \<Rightarrow> 'c \<Rightarrow> nat list \<Rightarrow> tensor3 \<Rightarrow> tensor3" where
  "denoise E p obs_cond [] naction = naction"
| "denoise E p obs_cond (k # ks) naction =
     denoise E p obs_cond ks
       (sched_step E (noise_pred_net E p naction (Step k) obs_cond) k naction)"

text \<open>\<^verbatim>\<open>start = To - 1; end = start + Ta; action = naction[:, start:end]\<close>\<close>

definition slice_actions :: "config \<Rightarrow> tensor3 \<Rightarrow> tensor3" where
  "slice_actions cfg naction =
     (let start = observation_horizon cfg - 1;
          end = start + action_horizon cfg
      in map (py_slice start end) naction)"

text \<open>
  The value of \<^verbatim>\<open>naction\<close> when the loop of \<^verbatim>\<open>_get_action_trajectory\<close> ends:
  Gaussian noise of shape \<open>[B, Tp, Da]\<close>, with \<open>B\<close> the batch size of the encoded
  observation, denoised along the scheduler's step sequence for \<open>n\<close> inference steps.
\<close>

definition denoised_actions ::
  "('p, 'x, 'f, 'c, 'q) env \<Rightarrow> ('p, 'x, 'q, 'l) algo \<Rightarrow> 'f \<Rightarrow> int \<Rightarrow> tensor3" where
  "denoised_actions E s obs_features n =
     (let B = feat_batch E obs_features;
          obs_cond = flatten_feat E obs_features;
          noisy_action =
            randn (gauss E) (rng_pos s) B (nat (prediction_horizon (algo_config s))) (nat (ac_dim s))
      in denoise E (select_nets s) obs_cond (set_timesteps E n) noisy_action)"

text \<open>
  \<^verbatim>\<open>_get_action_trajectory\<close>. \<^verbatim>\<open>torch.randn\<close> raises \<^verbatim>\<open>RuntimeError\<close> for a
  negative dimension. The state changes are the scheduler's step sequence and the
  position of the random generator (and the ghost log, written on entry).
\<close>

definition get_action_trajectory ::
  "('p, 'x, 'f, 'c, 'q) env \<Rightarrow> ('p, 'x, 'q, 'l) algo \<Rightarrow> 'x obs_dict \<Rightarrow> 'x obs_dict option
     \<Rightarrow> (error + tensor3) \<times> ('p, 'x, 'q, 'l) algo" where
  "get_action_trajectory E s obs_dict goal_dict =
     (let s0 = s\<lparr>sampler_log := sampler_log s @ [obs_dict]\<rparr>
      in if training s then (Inl (AssertionError NetsTraining), s0)
         else
           (case num_inference_timesteps (algo_config s) of
              Inl e \<Rightarrow> (Inl e, s0)
            | Inr n \<Rightarrow>
                if \<not> obs_ndim_ok E obs_dict then (Inl (AssertionError ObsNdim), s0)
                else
                  (let obs_features = obs_encoder E (select_nets s) obs_dict goal_dict
                   in if feat_ndim E obs_features \<noteq> 3
                      then (Inl (AssertionError FeaturesNdim), s0)
                      else if prediction_horizon (algo_config s) < 0 \<or> ac_dim s < 0
                      then (Inl RuntimeError, s0)
                      else
                        (Inr (slice_actions (algo_config s)
                                (denoised_actions E s obs_features n)),
                         s0\<lparr>rng_pos := rng_pos s + feat_batch E obs_features
                                          * nat (prediction_horizon (algo_config s))
                                          * nat (ac_dim s),
                            timesteps := set_timesteps E n\<rparr>))))"

text \<open>
  \<^verbatim>\<open>self.action_queue.extend(xs)\<close>, the only statement that pushes actions onto the
  action queue. On a queue that is still \<^verbatim>\<open>None\<close> it is an \<^verbatim>\<open>AttributeError\<close>.
\<close>

definition push_actions ::
  "('p, 'x, 'q, 'l) algo \<Rightarrow> action list \<Rightarrow> (error + unit) \<times> ('p, 'x, 'q, 'l) algo" where
  "push_actions s xs =
     (case action_queue s of
        None \<Rightarrow> (Inl AttributeError, s)
      | Some q \<Rightarrow> (Inr (), s\<lparr>action_queue := Some (deque_extend q xs)\<rparr>))"

text \<open>
  \<^verbatim>\<open>action = self.action_queue.popleft(); action = action.unsqueeze(0)\<close>: the result
  has shape \<open>[1, Da]\<close>.
\<close>

definition pop_action ::
  "('p, 'x, 'q, 'l) algo \<Rightarrow> (error + action list) \<times> ('p, 'x, 'q, 'l) algo" where
  "pop_action s =
     (case action_queue s of
        None \<Rightarrow> (Inl AttributeError, s)
      | Some q \<Rightarrow>
          (case deque_popleft q of
             Inl e \<Rightarrow> (Inl e, s)
           | Inr (a, q') \<Rightarrow> (Inr [a], s\<lparr>action_queue := Some q'\<rparr>)))"

text \<open>
  \<^verbatim>\<open>get_action\<close>. \<^verbatim>\<open>len(self.action_queue)\<close> is a \<^verbatim>\<open>TypeError\<close> before the
  first \<^verbatim>\<open>reset\<close>. The sampler is called with \<^verbatim>\<open>obs_dict\<close> only: the goal is not
  passed on. \<^verbatim>\<open>action_sequence[0]\<close> raises \<^verbatim>\<open>IndexError\<close> on an empty batch.
\<close>

definition get_action ::
  "('p, 'x, 'f, 'c, 'q) env \<Rightarrow> ('p, 'x, 'q, 'l) algo \<Rightarrow> 'x obs_dict \<Rightarrow> 'x obs_dict option
     \<Rightarrow> (error + action list) \<times> ('p, 'x, 'q, 'l) algo" where
  "get_action E s obs_dict goal_dict =
     (case action_queue s of
        None \<Rightarrow> (Inl TypeError, s)
      | Some q \<Rightarrow>
          if length (items q) = 0 then
            (case get_action_trajectory E s obs_dict None of
               (Inl e, s1) \<Rightarrow> (Inl e, s1)
             | (Inr action_sequence, s1) \<Rightarrow>
                 (case action_sequence of
                    [] \<Rightarrow> (Inl IndexError, s1)
                  | row # _ \<Rightarrow>
                      (case push_actions s1 row of
                         (Inl e, s2) \<Rightarrow> (Inl e, s2)
                       | (Inr _, s2) \<Rightarrow> pop_action s2)))
          else pop_action s)"

text \<open>
  A rollout: \<^verbatim>\<open>get_action\<close> called once for each observation of a list, in order.
  The run stops at the first exception; the actions returned so far are kept.
\<close>

fun get_actions ::
  "('p, 'x, 'f, 'c, 'q) env \<Rightarrow> ('p, 'x, 'q, 'l) algo \<Rightarrow> 'x obs_dict list
     \<Rightarrow> (error + action list list) \<times> ('p, 'x, 'q, 'l) algo" where
  "get_actions E s [] = (Inr [], s)"
| "get_actions E s (obs # rest) =
     (case get_action E s obs None of
        (Inl e, s1) \<Rightarrow> (Inl e, s1)
      | (Inr a, s1) \<Rightarrow>
          (case get_actions E s1 rest of
             (Inl e, s2) \<Rightarrow> (Inl e, s2)
           | (Inr as, s2) \<Rightarrow> (Inr (a # as), s2)))"

text \<open>
  The states of a rollout: those left by a successful \<^verbatim>\<open>reset\<close> and by any number
  of \<^verbatim>\<open>get_action\<close> calls after it, whatever their outcome.
\<close>

inductive rollout_state ::
  "('p, 'x, 'f, 'c, 'q) env \<Rightarrow> ('p, 'x, 'q, 'l) algo \<Rightarrow> bool" for E where
  after_reset: "reset s0 = (Inr (), s) \<Longrightarrow> rollout_state E s"
| after_get_action:
    "rollout_state E s \<Longrightarrow> get_action E s obs_dict goal_dict = (r, s') \<Longrightarrow> rollout_state E s'"

text \<open>
  The conditions under which no error branch of \<^verbatim>\<open>_get_action_trajectory\<close> is taken
  for an observation and the sampled batch is not empty: evaluation mode, a diffusion
  variant enabled, a non-negative action dimension, and an encoder whose input and
  output pass the rank assertions.
\<close>

definition sampler_ready ::
  "('p, 'x, 'f, 'c, 'q) env \<Rightarrow> ('p, 'x, 'q, 'l) algo \<Rightarrow> 'x obs_dict \<Rightarrow> bool" where
  "sampler_ready E s obs_dict =
     (\<not> training s
      \<and> (ddpm_enabled (algo_config s) \<or> ddim_enabled (algo_config s))
      \<and> 0 \<le> ac_dim s
      \<and> obs_ndim_ok E obs_dict
      \<and> feat_ndim E (obs_encoder E (select_nets s) obs_dict None) = 3
      \<and> 1 \<le> feat_batch E (obs_encoder E (select_nets s) obs_dict None))"

text \<open>
  The contract of the scheduler's reverse step that the rollout relies on: the new
  sample has the batch size and the time length of the old one.
\<close>

definition step_keeps_shape :: "('p, 'x, 'f, 'c, 'q) env \<Rightarrow> bool" where
  "step_keeps_shape E = (\<forall>m k x. map length (sched_step E m k x) = map length x)"

subsection \<open>Training: \<^verbatim>\<open>process_batch_for_training\<close>, \<^verbatim>\<open>train_on_batch\<close>\<close>

record 'x batch =
  batch_obs :: "'x obs_dict"
  batch_goal_obs :: "'x obs_dict option"
  batch_actions :: tensor3

record train_info =
  l2_loss :: real
  policy_grad_norms :: "real option"

text \<open>
  \<^verbatim>\<open>in_range = (-1 <= actions) & (actions <= 1); torch.all(in_range).item()\<close>
\<close>

definition all_in_range :: "tensor3 \<Rightarrow> bool" where
  "all_in_range actions = list_all (list_all (list_all (\<lambda>v. - 1 \<le> v \<and> v \<le> 1))) actions"

text \<open>
  \<^verbatim>\<open>process_batch_for_training\<close>. The slices \<^verbatim>\<open>[:, :To, :]\<close> and \<^verbatim>\<open>[:, :Tp, :]\<close>
  cut the time axis; the range check reads the actions after the cut. The final
  conversion to float on the device does not change a value.
\<close>

definition process_batch_for_training ::
  "('p, 'x, 'q, 'l) algo \<Rightarrow> 'x batch \<Rightarrow> (error + 'x batch) \<times> ('p, 'x, 'q, 'l) algo" where
  "process_batch_for_training s batch =
     (let To = observation_horizon (algo_config s);
          Tp = prediction_horizon (algo_config s);
          input_batch =
            \<lparr>batch_obs = map (\<lambda>(k, v). (k, map (py_slice 0 To) v)) (batch_obs batch),
             batch_goal_obs = batch_goal_obs batch,
             batch_actions = map (py_slice 0 Tp) (batch_actions batch)\<rparr>
      in if \<not> action_check_done s then
           if \<not> all_in_range (batch_actions input_batch) then (Inl ValueError, s)
           else (Inr input_batch, s\<lparr>action_check_done := True\<rparr>)
         else (Inr input_batch, s))"

text \<open>
  The shape of a rank-three tensor, read off the nested lists (an empty axis hides
  the sizes of the axes below it).
\<close>

definition shape3 :: "tensor3 \<Rightarrow> nat \<times> nat \<times> nat" where
  "shape3 x =
     (length x,
      (case x of [] \<Rightarrow> 0 | r # _ \<Rightarrow> length r),
      (case x of [] \<Rightarrow> 0 | r # _ \<Rightarrow> (case r of [] \<Rightarrow> 0 | v # _ \<Rightarrow> length v)))"

text \<open>
  \<^verbatim>\<open>train_on_batch\<close>: the loss of one batch and, unless \<^verbatim>\<open>validate\<close>, one
  gradient step on \<^verbatim>\<open>self.nets\<close> with the optimiser \<^verbatim>\<open>"policy"\<close> followed by one
  step of the moving average. \<^verbatim>\<open>torch.randint(0, high, (B,))\<close> raises
  \<^verbatim>\<open>RuntimeError\<close> unless \<open>0 < high\<close>.
\<close>

definition train_on_batch ::
  "('p, 'x, 'f, 'c, 'q) env \<Rightarrow> ('p, 'x, 'q, 'l) algo \<Rightarrow> 'x batch \<Rightarrow> bool
     \<Rightarrow> (error + train_info) \<times> ('p, 'x, 'q, 'l) algo" where
  "train_on_batch E s batch validate =
     (case super_train_on_batch E validate (training s) of
        Some e \<Rightarrow> (Inl e, s)
      | None \<Rightarrow>
          if \<not> obs_ndim_ok E (batch_obs batch) then (Inl (AssertionError ObsNdim), s)
          else
            (let actions = batch_actions batch;
                 obs_features = obs_encoder E (nets s) (batch_obs batch) (batch_goal_obs batch)
             in if feat_ndim E obs_features \<noteq> 3 then (Inl (AssertionError FeaturesNdim), s)
                else
                  (let obs_cond = flatten_feat E obs_features;
                       (B, T, D) = shape3 actions;
                       noise = randn (gauss E) (rng_pos s) B T D;
                       s1 = s\<lparr>rng_pos := rng_pos s + B * T * D\<rparr>
                   in if num_train_timesteps s \<le> 0 then (Inl RuntimeError, s1)
                      else
                        (let ts = map (\<lambda>b. rand_int E (rng_pos s1 + b) (nat (num_train_timesteps s)))
                                    [0..<B];
                             s2 = s1\<lparr>rng_pos := rng_pos s1 + B\<rparr>;
                             noisy_actions = add_noise E actions noise ts;
                             noise_pred = noise_pred_net E (nets s) noisy_actions (Steps ts) obs_cond;
                             loss = mse_loss E noise_pred noise
                         in if \<not> validate then
                              (case map_of (optimizers s) ''policy'' of
                                 None \<Rightarrow> (Inl KeyError, s2)
                               | Some optim \<Rightarrow>
                                   (let (nets', optim', grad_norms) =
                                          backprop_for_loss E (nets s) optim loss;
                                        s3 = s2\<lparr>nets := nets',
                                                optimizers :=
                                                  AList.update ''policy'' optim' (optimizers s)\<rparr>;
                                        s4 = s3\<lparr>ema := map_option (\<lambda>e. ema_step E e nets') (ema s)\<rparr>
                                    in (Inr \<lparr>l2_loss = loss, policy_grad_norms = Some grad_norms\<rparr>,
                                        s4)))
                            else (Inr \<lparr>l2_loss = loss, policy_grad_norms = None\<rparr>, s2)))))"

text \<open>
  Modelled from the spec: the training loop that hands a batch of the data loader to
  \<^verbatim>\<open>process_batch_for_training\<close> and its result to \<^verbatim>\<open>train_on_batch\<close> is not in the
  source file. The spec's section 4.1 gives the contract
  \<^verbatim>\<open>train_step(batch, update_params)\<close>: slice the inputs (with the range check of the
  first call), compute the loss, and take the gradient step only if
  \<^verbatim>\<open>update_params\<close>. An exception of the first stage ends the step.
\<close>

definition train_step ::
  "('p, 'x, 'f, 'c, 'q) env \<Rightarrow> ('p, 'x, 'q, 'l) algo \<Rightarrow> 'x batch \<Rightarrow> bool
     \<Rightarrow> (error + train_info) \<times> ('p, 'x, 'q, 'l) algo" where
  "train_step E s batch update_params =
     (case process_batch_for_training s batch of
        (Inl e, s1) \<Rightarrow> (Inl e, s1)
      | (Inr input_batch, s1) \<Rightarrow> train_on_batch E s1 input_batch (\<not> update_params))"

text \<open>
  \<^verbatim>\<open>process_batch_for_training\<close> on the batches of a list, in order, up to the first
  exception.
\<close>

fun process_batches ::
  "('p, 'x, 'q, 'l) algo \<Rightarrow> 'x batch list \<Rightarrow> (error + 'x batch list) \<times> ('p, 'x, 'q, 'l) algo" where
  "process_batches s [] = (Inr [], s)"
| "process_batches s (b # bs) =
     (case process_batch_for_training s b of
        (Inl e, s1) \<Rightarrow> (Inl e, s1)
      | (Inr ib, s1) \<Rightarrow>
          (case process_batches s1 bs of
             (Inl e, s2) \<Rightarrow> (Inl e, s2)
           | (Inr ibs, s2) \<Rightarrow> (Inr (ib # ibs), s2)))"

subsection \<open>Checkpoints: \<^verbatim>\<open>serialize\<close>, \<^verbatim>\<open>deserialize\<close>\<close>

text \<open>
  A checkpoint dictionary. A key may be absent (\<open>None\<close>); the value under
  \<^verbatim>\<open>"ema"\<close> may be \<^verbatim>\<open>None\<close> (\<open>Some None\<close>). The two inner dictionaries are
  association lists in insertion order, the order in which the loading loops visit
  them. A network, an optimiser and a scheduler are identified with their state
  dictionaries, so that \<^verbatim>\<open>load_state_dict\<close> is an assignment.
\<close>

record ('p, 'q, 'l) model_dict =
  md_nets :: "'p option"
  md_optimizers :: "(string \<times> 'q) list option"
  md_lr_schedulers :: "(string \<times> 'l option) list option"
  md_ema :: "'p option option"

definition serialize :: "('p, 'x, 'q, 'l) algo \<Rightarrow> ('p, 'q, 'l) model_dict" where
  "serialize s =
     \<lparr>md_nets = Some (nets s),
      md_optimizers = Some (optimizers s),
      md_lr_schedulers = Some (lr_schedulers s),
      md_ema = Some (map_option averaged_model (ema s))\<rparr>"

text \<open>
  \<^verbatim>\<open>for k in model_dict["optimizers"]: self.optimizers[k].load_state_dict(...)\<close>.
  A name that the object does not have is a \<^verbatim>\<open>KeyError\<close>; the entries loaded before
  it stay loaded.
\<close>

fun load_optimizers_loop ::
  "(string \<times> 'q) list \<Rightarrow> (string \<times> 'q) list \<Rightarrow> error option \<times> (string \<times> 'q) list" where
  "load_optimizers_loop [] opts = (None, opts)"
| "load_optimizers_loop ((k, st) # rest) opts =
     (case map_of opts k of
        None \<Rightarrow> (Some KeyError, opts)
      | Some _ \<Rightarrow> load_optimizers_loop rest (AList.update k st opts))"

text \<open>
  The loop over \<^verbatim>\<open>model_dict["lr_schedulers"]\<close>: an entry that is \<^verbatim>\<open>None\<close> is
  skipped; otherwise a missing name is a \<^verbatim>\<open>KeyError\<close> and a scheduler that is
  \<^verbatim>\<open>None\<close> an \<^verbatim>\<open>AttributeError\<close>.
\<close>

fun load_lr_schedulers_loop ::
  "(string \<times> 'l option) list \<Rightarrow> (string \<times> 'l option) list
     \<Rightarrow> error option \<times> (string \<times> 'l option) list" where
  "load_lr_schedulers_loop [] lrs = (None, lrs)"
| "load_lr_schedulers_loop ((k, None) # rest) lrs = load_lr_schedulers_loop rest lrs"
| "load_lr_schedulers_loop ((k, Some st) # rest) lrs =
     (case map_of lrs k of
        None \<Rightarrow> (Some KeyError, lrs)
      | Some None \<Rightarrow> (Some AttributeError, lrs)
      | Some (Some _) \<Rightarrow> load_lr_schedulers_loop rest (AList.update k (Some st) lrs))"

text \<open>
  The two defaults of \<^verbatim>\<open>deserialize\<close>, kept for older checkpoints:
  \<^verbatim>\<open>if "optimizers" not in model_dict: model_dict["optimizers"] = {}\<close>, and the same
  for \<^verbatim>\<open>"lr_schedulers"\<close>. The dictionary passed in is mutated.
\<close>

definition fill_defaults :: "('p, 'q, 'l) model_dict \<Rightarrow> ('p, 'q, 'l) model_dict" where
  "fill_defaults model_dict =
     (let md1 = (case md_optimizers model_dict of
                   None \<Rightarrow> model_dict\<lparr>md_optimizers := Some []\<rparr>
                 | Some _ \<Rightarrow> model_dict)
      in case md_lr_schedulers md1 of
           None \<Rightarrow> md1\<lparr>md_lr_schedulers := Some []\<rparr>
         | Some _ \<Rightarrow> md1)"

text \<open>
  \<^verbatim>\<open>if model_dict.get("ema", None) is not None:
  self.ema.averaged_model.load_state_dict(model_dict["ema"])\<close>. The attribute access
  \<^verbatim>\<open>self.ema.averaged_model\<close> is an \<^verbatim>\<open>AttributeError\<close> when the object has no
  moving average.
\<close>

definition load_ema ::
  "('p, 'x, 'q, 'l) algo \<Rightarrow> ('p, 'q, 'l) model_dict \<Rightarrow> error + ('p, 'x, 'q, 'l) algo" where
  "load_ema s model_dict =
     (case md_ema model_dict of
        Some (Some e) \<Rightarrow>
          (case ema s of
             None \<Rightarrow> Inl AttributeError
           | Some m \<Rightarrow> Inr (s\<lparr>ema := Some (m\<lparr>averaged_model := e\<rparr>)\<rparr>))
      | _ \<Rightarrow> Inr s)"

text \<open>The body of \<^verbatim>\<open>if load_optimizers:\<close>, the two loading loops in sequence.\<close>

definition load_optimizer_states ::
  "('p, 'x, 'q, 'l) algo \<Rightarrow> ('p, 'q, 'l) model_dict
     \<Rightarrow> (error + ('p, 'q, 'l) model_dict) \<times> ('p, 'x, 'q, 'l) algo" where
  "load_optimizer_states s model_dict =
     (case md_optimizers model_dict of
        None \<Rightarrow> (Inl KeyError, s)
      | Some ck_opts \<Rightarrow>
          (case load_optimizers_loop ck_opts (optimizers s) of
             (Some e, opts) \<Rightarrow> (Inl e, s\<lparr>optimizers := opts\<rparr>)
           | (None, opts) \<Rightarrow>
               (case md_lr_schedulers model_dict of
                  None \<Rightarrow> (Inl KeyError, s\<lparr>optimizers := opts\<rparr>)
                | Some ck_lrs \<Rightarrow>
                    (case load_lr_schedulers_loop ck_lrs (lr_schedulers s) of
                       (Some e, lrs) \<Rightarrow> (Inl e, s\<lparr>optimizers := opts, lr_schedulers := lrs\<rparr>)
                     | (None, lrs) \<Rightarrow>
                         (Inr model_dict, s\<lparr>optimizers := opts, lr_schedulers := lrs\<rparr>)))))"

text \<open>
  \<^verbatim>\<open>deserialize\<close>: load the networks (\<^verbatim>\<open>model_dict["nets"]\<close> is a \<^verbatim>\<open>KeyError\<close>
  when the key is missing), store the defaults, load the moving average if the
  checkpoint has one, and load the optimisers and schedulers if asked to. The model
  returns the dictionary as the call leaves it.
\<close>

definition deserialize ::
  "('p, 'x, 'q, 'l) algo \<Rightarrow> ('p, 'q, 'l) model_dict \<Rightarrow> bool
     \<Rightarrow> (error + ('p, 'q, 'l) model_dict) \<times> ('p, 'x, 'q, 'l) algo" where
  "deserialize s model_dict load_optimizers =
     (case md_nets model_dict of
        None \<Rightarrow> (Inl KeyError, s)
      | Some p \<Rightarrow>
          (case load_ema (s\<lparr>nets := p\<rparr>) (fill_defaults model_dict) of
             Inl e \<Rightarrow> (Inl e, s\<lparr>nets := p\<rparr>)
           | Inr s2 \<Rightarrow>
               if load_optimizers then load_optimizer_states s2 (fill_defaults model_dict)
               else (Inr (fill_defaults model_dict), s2)))"

subsection \<open>Runs of method calls\<close>

text \<open>
  The methods of the class that change the object, as the calls of a run. (The
  constructor \<^verbatim>\<open>_create_networks\<close> makes a new object and starts a new run;
  \<^verbatim>\<open>log_info\<close> and \<^verbatim>\<open>serialize\<close> only read.) A run is any sequence of such calls
  on one object; a call that raises leaves the object as the exception found it, and
  the run goes on with the next call.
\<close>

datatype ('p, 'x, 'q, 'l) method_call =
    ProcessBatch "'x batch"
  | TrainOnBatch "'x batch" bool
  | Reset
  | GetAction "'x obs_dict" "'x obs_dict option"
  | Deserialize "('p, 'q, 'l) model_dict" bool

fun call_method ::
  "('p, 'x, 'f, 'c, 'q) env \<Rightarrow> ('p, 'x, 'q, 'l) algo \<Rightarrow> ('p, 'x, 'q, 'l) method_call
     \<Rightarrow> ('p, 'x, 'q, 'l) algo" where
  "call_method E s (ProcessBatch batch) = snd (process_batch_for_training s batch)"
| "call_method E s (TrainOnBatch batch validate) = snd (train_on_batch E s batch validate)"
| "call_method E s Reset = snd (reset s)"
| "call_method E s (GetAction obs_dict goal_dict) = snd (get_action E s obs_dict goal_dict)"
| "call_method E s (Deserialize model_dict load_optimizers) =
     snd (deserialize s model_dict load_optimizers)"

fun run_methods ::
  "('p, 'x, 'f, 'c, 'q) env \<Rightarrow> ('p, 'x, 'q, 'l) algo \<Rightarrow> ('p, 'x, 'q, 'l) method_call list
     \<Rightarrow> ('p, 'x, 'q, 'l) algo" where
  "run_methods E s [] = s"
| "run_methods E s (c # cs) = run_methods E (call_method E s c) cs"

subsection \<open>Invariant of the action queue\<close>


subsection \<open>A concrete policy\<close>

text \<open>
  The configuration of the spec's end-to-end scenario: an observation horizon of 2, an
  action horizon of 4, a prediction horizon of 8 and one action dimension. Parameter
  sets, features and optimiser states are natural numbers. The predictor scales the
  sample by the parameter, and the scheduler's step subtracts the first entry of the
  predicted noise from every entry of the sample.
\<close>

definition example_config :: config where
  "example_config =
     \<lparr>observation_horizon = 2, action_horizon = 4, prediction_horizon = 8,
      ddpm_enabled = True, ddpm_num_inference_timesteps = 3,
      ddim_enabled = False, ddim_num_inference_timesteps = 0\<rparr>"

definition example_algo :: "(nat, nat, nat, nat) algo" where
  "example_algo =
     \<lparr>algo_config = example_config, ac_dim = 1, nets = 1, training = False,
      ema = Some \<lparr>averaged_model = 2, optimization_step = 0\<rparr>,
      optimizers = [(''policy'', 0)], lr_schedulers = [(''policy'', None)],
      num_train_timesteps = 100, timesteps = [], action_check_done = False,
      obs_queue = None, action_queue = None, rng_pos = 0, sampler_log = []\<rparr>"

definition first_entry :: "tensor3 \<Rightarrow> real" where
  "first_entry m = (case m of ((v # _) # _) # _ \<Rightarrow> v | _ \<Rightarrow> 0)"

definition example_env :: "(nat, nat, nat, nat, nat) env" where
  "example_env =
     \<lparr>obs_ndim_ok = (\<lambda>obs. True),
      obs_encoder = (\<lambda>p obs goal. p),
      feat_ndim = (\<lambda>f. 3),
      feat_batch = (\<lambda>f. 1),
      flatten_feat = (\<lambda>f. f),
      noise_pred_net = (\<lambda>p x k c. map (map (map (\<lambda>v. v * real p))) x),
      gauss = (\<lambda>i. real (i + 1)),
      rand_int = (\<lambda>i high. i mod high),
      set_timesteps = (\<lambda>n. rev [0..<nat n]),
      sched_step = (\<lambda>m k x. map (map (map (\<lambda>v. v - first_entry m))) x),
      add_noise = (\<lambda>a n ts. a),
      mse_loss = (\<lambda>a b. 0),
      backprop_for_loss = (\<lambda>p q loss. (p + 1, q + 1, loss)),
      ema_step = (\<lambda>e p. e\<lparr>averaged_model := p, optimization_step := optimization_step e + 1\<rparr>),
      super_train_on_batch =
        (\<lambda>validate tr. if validate \<or> tr then None else Some (AssertionError SuperTrain))\<rparr>"

definition example_obs :: "nat obs_dict" where
  "example_obs = [(''robot0_eef_pos'', [[1, 2]])]"

text \<open>The state that \<^verbatim>\<open>reset\<close> leaves when called on the example policy.\<close>

definition example_start :: "(nat, nat, nat, nat) algo" where
  "example_start = snd (reset example_algo)"

text \<open>
  The example policy in training mode, and three batches for it with nine time steps
  each, one more than the prediction horizon: one within the range, one with the value
  1.5 at the second step, and one with the value 1.5 at the ninth step.
\<close>

definition example_trainee :: "(nat, nat, nat, nat) algo" where
  "example_trainee = example_algo\<lparr>training := True\<rparr>"

definition example_batch :: "nat batch" where
  "example_batch =
     \<lparr>batch_obs = [(''robot0_eef_pos'', [[1, 2, 3]])], batch_goal_obs = None,
      batch_actions = [[[0], [1 / 2], [- 1], [1], [0], [0], [0], [0], [0]]]\<rparr>"

definition example_batch_early_violation :: "nat batch" where
  "example_batch_early_violation =
     \<lparr>batch_obs = [(''robot0_eef_pos'', [[1, 2, 3]])], batch_goal_obs = None,
      batch_actions = [[[0], [3 / 2], [0], [0], [0], [0], [0], [0], [0]]]\<rparr>"

definition example_batch_late_violation :: "nat batch" where
  "example_batch_late_violation =
     \<lparr>batch_obs = [(''robot0_eef_pos'', [[1, 2, 3]])], batch_goal_obs = None,
      batch_actions = [[[0], [0], [0], [0], [0], [0], [0], [0], [3 / 2]]]\<rparr>"

text \<open>
  A checkpoint of the older format, without the keys \<^verbatim>\<open>"optimizers"\<close> and
  \<^verbatim>\<open>"lr_schedulers"\<close>.
\<close>

definition example_old_checkpoint :: "(nat, nat, nat) model_dict" where
  "example_old_checkpoint =
     \<lparr>md_nets = Some 5, md_optimizers = None, md_lr_schedulers = None, md_ema = Some (Some 9)\<rparr>"

section \<open>Lemmas\<close>

subsection \<open>The bounded deque\<close>

lemma deque_append_maxlen: "maxlen (deque_append d x) = maxlen d"
  by (simp add: deque_append_def)

lemma deque_append_bounded:
  "length (items d) \<le> maxlen d \<Longrightarrow> length (items (deque_append d x)) \<le> maxlen d"
  by (auto simp: deque_append_def)

lemma deque_extend_maxlen: "maxlen (deque_extend d xs) = maxlen d"
  unfolding deque_extend_def
  by (induction xs arbitrary: d) (simp_all add: deque_append_maxlen)


lemma deque_append_items:
  "length (items d) \<le> maxlen d \<Longrightarrow>
   items (deque_append d x) = drop (length (items d @ [x]) - maxlen d) (items d @ [x])"
  by (cases "items d") (auto simp: deque_append_def)

lemma deque_extend_items:
  "length (items d) \<le> maxlen d \<Longrightarrow>
   items (deque_extend d xs) = drop (length (items d @ xs) - maxlen d) (items d @ xs)"
  unfolding deque_extend_def
proof (induction xs arbitrary: d)
  case Nil
  then show ?case by simp
next
  case (Cons x xs)
  let ?d = "deque_append d x"
  let ?L = "items d @ [x]"
  let ?k = "length ?L - maxlen d"
  have b: "length (items ?d) \<le> maxlen ?d"
    using Cons.prems by (simp add: deque_append_bounded deque_append_maxlen)
  have i: "items ?d = drop ?k ?L"
    using Cons.prems by (rule deque_append_items)
  have k: "?k \<le> length ?L" by simp
  have "items (foldl deque_append ?d xs)
          = drop (length (drop ?k ?L @ xs) - maxlen d) (drop ?k ?L @ xs)"
    using Cons.IH [OF b] by (simp only: i deque_append_maxlen)
  also have "drop ?k ?L @ xs = drop ?k (?L @ xs)"
  proof -
    have "?k - length ?L = 0" by simp
    then show ?thesis by (simp only: drop_append drop_0)
  qed
  also have "drop (length (drop ?k (?L @ xs)) - maxlen d) (drop ?k (?L @ xs))
          = drop (length (drop ?k (?L @ xs)) - maxlen d + ?k) (?L @ xs)"
    by (simp only: drop_drop)
  also have "length (drop ?k (?L @ xs)) - maxlen d + ?k = length (?L @ xs) - maxlen d"
    using Cons.prems by simp
  finally show ?case by simp
qed

lemma deque_extend_fits:
  "length (items d) + length xs \<le> maxlen d \<Longrightarrow> deque_extend d xs = d\<lparr>items := items d @ xs\<rparr>"
  using deque_extend_items [of d xs] deque_extend_maxlen [of d xs]
  by (cases d, cases "deque_extend d xs") simp

lemma deque_extend_eq:
  "length (items d) \<le> maxlen d \<Longrightarrow>
   deque_extend d xs = d\<lparr>items := drop (length (items d @ xs) - maxlen d) (items d @ xs)\<rparr>"
  using deque_extend_items [of d xs] deque_extend_maxlen [of d xs]
  by (cases d, cases "deque_extend d xs") simp

subsection \<open>Slices\<close>





lemma py_slice_window:
  "0 \<le> a \<Longrightarrow> 0 \<le> n \<Longrightarrow> py_slice a (a + n) xs = take (nat n) (drop (nat a) xs)"
proof -
  assume a: "0 \<le> a" and n: "0 \<le> n"
  have lo: "slice_index (length xs) a = min (nat a) (length xs)"
    using a by (simp add: slice_index_def)
  have hi: "slice_index (length xs) (a + n) = min (nat a + nat n) (length xs)"
    using a n by (simp add: slice_index_def nat_add_distrib)
  show ?thesis
  proof (cases "nat a \<le> length xs")
    case True
    then have "py_slice a (a + n) xs = take (min (nat a + nat n) (length xs) - nat a) (drop (nat a) xs)"
      by (simp add: py_slice_def Let_def lo hi)
    also have "\<dots> = take (nat n) (drop (nat a) xs)"
      using True by (simp add: min_def)
    finally show ?thesis .
  next
    case False
    then show ?thesis by (simp add: py_slice_def Let_def lo hi)
  qed
qed

subsection \<open>The sampler\<close>

lemma denoise_shape:
  "step_keeps_shape E \<Longrightarrow> map length (denoise E p c ts x) = map length x"
  by (induction ts arbitrary: x) (simp_all add: step_keeps_shape_def)

lemma randn_shape: "map length (randn g pos B T D) = replicate B T"
  by (simp add: randn_def map_replicate_const comp_def)

lemma sampler_success:
  assumes "\<not> training s"
    and "num_inference_timesteps (algo_config s) = Inr n"
    and "obs_ndim_ok E obs"
    and "feat_ndim E (obs_encoder E (select_nets s) obs g) = 3"
    and "0 \<le> prediction_horizon (algo_config s)"
    and "0 \<le> ac_dim s"
  shows "get_action_trajectory E s obs g =
    (Inr (slice_actions (algo_config s)
            (denoised_actions E s (obs_encoder E (select_nets s) obs g) n)),
     s\<lparr>sampler_log := sampler_log s @ [obs],
       rng_pos := rng_pos s + feat_batch E (obs_encoder E (select_nets s) obs g)
                    * nat (prediction_horizon (algo_config s)) * nat (ac_dim s),
       timesteps := set_timesteps E n\<rparr>)"
  using assms by (simp add: get_action_trajectory_def Let_def)

lemma sampler_result:
  assumes "get_action_trajectory E s obs g = (Inr action, s')"
  shows "\<exists>n. num_inference_timesteps (algo_config s) = Inr n
           \<and> action = slice_actions (algo_config s)
                        (denoised_actions E s (obs_encoder E (select_nets s) obs g) n)"
  using assms unfolding get_action_trajectory_def Let_def
  by (auto split: if_splits sum.splits)

lemma denoised_actions_shape:
  assumes "step_keeps_shape E"
  shows "map length (denoised_actions E s f n)
           = replicate (feat_batch E f) (nat (prediction_horizon (algo_config s)))"
  using assms by (simp add: denoised_actions_def Let_def denoise_shape randn_shape)

lemma sampler_frame:
  assumes "get_action_trajectory E s obs g = (r, s')"
  shows "\<exists>p t. s' = s\<lparr>sampler_log := sampler_log s @ [obs], rng_pos := p, timesteps := t\<rparr>"
proof -
  have id: "s\<lparr>sampler_log := sampler_log s @ [obs]\<rparr>
      = s\<lparr>sampler_log := sampler_log s @ [obs], rng_pos := rng_pos s, timesteps := timesteps s\<rparr>"
    by simp
  show ?thesis
    using assms unfolding get_action_trajectory_def Let_def
    by (auto split: if_splits sum.splits intro: id)
qed


subsection \<open>Draining and refilling the action queue\<close>

lemma get_action_nonempty:
  assumes "action_queue s = Some q" and "items q = a # rest"
  shows "get_action E s obs g = (Inr [a], s\<lparr>action_queue := Some (q\<lparr>items := rest\<rparr>)\<rparr>)"
  using assms by (simp add: get_action_def pop_action_def deque_popleft_def)

lemma get_action_refill:
  assumes "action_queue s = Some q" and "items q = []"
    and "get_action_trajectory E s obs None = (Inr ((a # rest) # others), s1)"
    and "length (a # rest) \<le> maxlen q"
  shows "get_action E s obs g = (Inr [a], s1\<lparr>action_queue := Some (q\<lparr>items := rest\<rparr>)\<rparr>)"
proof -
  from sampler_frame [OF assms(3)] obtain p t where
    s1: "s1 = s\<lparr>sampler_log := sampler_log s @ [obs], rng_pos := p, timesteps := t\<rparr>"
    by blast
  have q1: "action_queue s1 = Some q" by (simp add: s1 assms(1))
  have ext: "deque_extend q (a # rest) = q\<lparr>items := a # rest\<rparr>"
    using deque_extend_fits [of q "a # rest"] assms(2,4) by simp
  show ?thesis
    using assms(1,2,3) q1 ext
    by (simp add: get_action_def push_actions_def pop_action_def deque_popleft_def)
qed

lemma get_actions_drain:
  assumes "action_queue s = Some q" and "length obs_list \<le> length (items q)"
  shows "get_actions E s obs_list =
     (Inr (map (\<lambda>a. [a]) (take (length obs_list) (items q))),
      s\<lparr>action_queue := Some (q\<lparr>items := drop (length obs_list) (items q)\<rparr>)\<rparr>)"
  using assms
proof (induction obs_list arbitrary: s q)
  case Nil
  then show ?case by simp
next
  case (Cons obs rest)
  from Cons.prems(2) obtain a xs where items: "items q = a # xs"
    by (cases "items q") auto
  let ?s1 = "s\<lparr>action_queue := Some (q\<lparr>items := xs\<rparr>)\<rparr>"
  have one: "get_action E s obs None = (Inr [a], ?s1)"
    using Cons.prems(1) items by (rule get_action_nonempty)
  have "get_actions E ?s1 rest =
     (Inr (map (\<lambda>a. [a]) (take (length rest) (items (q\<lparr>items := xs\<rparr>)))),
      ?s1\<lparr>action_queue := Some (q\<lparr>items := xs\<rparr>\<lparr>items := drop (length rest) (items (q\<lparr>items := xs\<rparr>))\<rparr>)\<rparr>)"
    using Cons.prems(2) items by (intro Cons.IH) simp_all
  then show ?case
    using one items by simp
qed

subsection \<open>The invariant of the action queue\<close>

lemma reset_success:
  assumes "reset s0 = (Inr (), s)"
  shows "s = s0\<lparr>obs_queue := Some \<lparr>items = [], maxlen = nat (observation_horizon (algo_config s0))\<rparr>,
                action_queue := Some \<lparr>items = [], maxlen = nat (action_horizon (algo_config s0))\<rparr>\<rparr>"
  using assms by (auto simp: reset_def deque_new_def Let_def split: if_splits)







subsection \<open>One action horizon of a rollout\<close>

lemma slice_actions_window:
  assumes "1 \<le> observation_horizon cfg" and "0 \<le> action_horizon cfg"
  shows "slice_actions cfg x =
           map (\<lambda>row. take (nat (action_horizon cfg)) (drop (nat (observation_horizon cfg - 1)) row)) x"
  using assms by (simp add: slice_actions_def Let_def py_slice_window)

lemma rows_of_replicate:
  assumes "map length x = replicate B T" and "row \<in> set x"
  shows "length row = T"
proof -
  from assms(2) have "length row \<in> set (map length x)" by simp
  with assms(1) show ?thesis by (simp split: if_splits)
qed

lemma sampled_rows:
  assumes ready: "sampler_ready E s obs"
    and shape: "step_keeps_shape E"
    and To: "1 \<le> observation_horizon (algo_config s)"
    and Ta: "0 \<le> action_horizon (algo_config s)"
    and Tp: "observation_horizon (algo_config s) - 1 + action_horizon (algo_config s)
               \<le> prediction_horizon (algo_config s)"
  shows "\<exists>traj others s1.
           get_action_trajectory E s obs None = (Inr (traj # others), s1)
           \<and> length traj = nat (action_horizon (algo_config s))"
proof -
  let ?cfg = "algo_config s"
  let ?f = "obs_encoder E (select_nets s) obs None"
  have "\<exists>n. num_inference_timesteps ?cfg = Inr n"
    using ready by (cases "ddpm_enabled ?cfg") (simp_all add: sampler_ready_def num_inference_timesteps_def)
  then obtain n where n: "num_inference_timesteps ?cfg = Inr n" ..
  let ?x = "denoised_actions E s ?f n"
  have Tp0: "0 \<le> prediction_horizon ?cfg" using To Ta Tp by linarith
  have run: "get_action_trajectory E s obs None =
      (Inr (slice_actions ?cfg ?x),
       s\<lparr>sampler_log := sampler_log s @ [obs],
         rng_pos := rng_pos s + feat_batch E ?f * nat (prediction_horizon ?cfg) * nat (ac_dim s),
         timesteps := set_timesteps E n\<rparr>)"
    using ready n Tp0 by (intro sampler_success) (simp_all add: sampler_ready_def)
  have shp: "map length ?x = replicate (feat_batch E ?f) (nat (prediction_horizon ?cfg))"
    using shape by (rule denoised_actions_shape)
  have "length ?x = feat_batch E ?f"
    using arg_cong [OF shp, of length] by simp
  moreover have "1 \<le> feat_batch E ?f" using ready by (simp add: sampler_ready_def)
  ultimately obtain row rows where x: "?x = row # rows"
    by (cases ?x) auto
  have "length row = nat (prediction_horizon ?cfg)"
    using shp x by (intro rows_of_replicate [of ?x _ _ row]) simp_all
  then have "length (take (nat (action_horizon ?cfg)) (drop (nat (observation_horizon ?cfg - 1)) row))
               = nat (action_horizon ?cfg)"
    using To Ta Tp by simp
  then show ?thesis
    using run x by (simp add: slice_actions_window [OF To Ta])
qed

lemma get_action_log:
  "sampler_log (snd (get_action E s obs g)) =
     (case action_queue s of
        None \<Rightarrow> sampler_log s
      | Some q \<Rightarrow> if items q = [] then sampler_log s @ [obs] else sampler_log s)"
proof (cases "action_queue s")
  case None
  then show ?thesis by (simp add: get_action_def)
next
  case (Some q)
  show ?thesis
  proof (cases "items q = []")
    case False
    then show ?thesis
      using Some
      by (auto simp: get_action_def pop_action_def deque_popleft_def split: list.splits)
  next
    case True
    obtain r1 s1 where samp: "get_action_trajectory E s obs None = (r1, s1)"
      by (cases "get_action_trajectory E s obs None")
    from sampler_frame [OF samp] obtain p t where
      s1: "s1 = s\<lparr>sampler_log := sampler_log s @ [obs], rng_pos := p, timesteps := t\<rparr>"
      by blast
    show ?thesis
      using Some True samp
      by (auto simp: get_action_def push_actions_def pop_action_def deque_popleft_def s1
               split: sum.splits list.splits option.splits)
  qed
qed

lemma episode:
  assumes reset: "reset s0 = (Inr (), s)"
    and ready: "sampler_ready E s0 obs"
    and shape: "step_keeps_shape E"
    and To: "1 \<le> observation_horizon (algo_config s0)"
    and Ta: "1 \<le> action_horizon (algo_config s0)"
    and Tp: "observation_horizon (algo_config s0) - 1 + action_horizon (algo_config s0)
               \<le> prediction_horizon (algo_config s0)"
    and len: "Suc (length rest) = nat (action_horizon (algo_config s0))"
  shows "\<exists>traj others s1.
           get_action_trajectory E s obs None = (Inr (traj # others), s1)
           \<and> length traj = nat (action_horizon (algo_config s0))
           \<and> get_actions E s (obs # rest) =
               (Inr (map (\<lambda>a. [a]) traj),
                s1\<lparr>action_queue := Some \<lparr>items = [], maxlen = nat (action_horizon (algo_config s0))\<rparr>\<rparr>)"
proof -
  let ?Ta = "nat (action_horizon (algo_config s0))"
  let ?q = "\<lparr>items = [], maxlen = ?Ta\<rparr> :: action deque"
  note s = reset_success [OF reset]
  have cfg: "algo_config s = algo_config s0" by (simp add: s)
  have q: "action_queue s = Some ?q" by (simp add: s)
  have sel: "select_nets s = select_nets s0"
    by (cases "ema s0") (simp_all add: select_nets_def s)
  have ready': "sampler_ready E s obs"
    using ready unfolding sampler_ready_def sel by (simp add: s)
  from sampled_rows [OF ready' shape] To Ta Tp obtain traj others s1 where
    samp: "get_action_trajectory E s obs None = (Inr (traj # others), s1)"
    and lt: "length traj = ?Ta"
    by (auto simp: cfg)
  from lt len obtain a tl_traj where traj: "traj = a # tl_traj"
    by (cases traj) auto
  have first: "get_action E s obs None = (Inr [a], s1\<lparr>action_queue := Some (?q\<lparr>items := tl_traj\<rparr>)\<rparr>)"
    using q samp lt by (intro get_action_refill) (simp_all add: traj)
  let ?s2 = "s1\<lparr>action_queue := Some (?q\<lparr>items := tl_traj\<rparr>)\<rparr>"
  have "get_actions E ?s2 rest =
     (Inr (map (\<lambda>a. [a]) (take (length rest) (items (?q\<lparr>items := tl_traj\<rparr>)))),
      ?s2\<lparr>action_queue := Some (?q\<lparr>items := tl_traj\<rparr>\<lparr>items := drop (length rest) (items (?q\<lparr>items := tl_traj\<rparr>))\<rparr>)\<rparr>)"
    using lt len traj by (intro get_actions_drain) simp_all
  moreover have "length rest = length tl_traj" using lt len traj by simp
  ultimately have rest: "get_actions E ?s2 rest = (Inr (map (\<lambda>a. [a]) tl_traj), s1\<lparr>action_queue := Some ?q\<rparr>)"
    by simp
  have "get_actions E s (obs # rest) = (Inr (map (\<lambda>a. [a]) traj), s1\<lparr>action_queue := Some ?q\<rparr>)"
    using first rest by (simp add: traj)
  with samp lt show ?thesis by blast
qed

subsection \<open>The concrete policy\<close>

lemma example_reset:
  "reset example_algo = (Inr (), example_start)"
  by (simp add: example_start_def reset_def deque_new_def example_algo_def example_config_def)

lemma example_start_eq:
  "example_start = example_algo\<lparr>obs_queue := Some \<lparr>items = [], maxlen = 2\<rparr>,
                                 action_queue := Some \<lparr>items = [], maxlen = 4\<rparr>\<rparr>"
  by (simp add: example_start_def reset_def deque_new_def example_algo_def example_config_def)

lemma example_ready: "sampler_ready example_env example_algo example_obs"
  by (simp add: sampler_ready_def example_env_def example_algo_def example_config_def)

lemma example_step_keeps_shape: "step_keeps_shape example_env"
  by (simp add: step_keeps_shape_def example_env_def comp_def)

lemma example_horizons:
  "1 \<le> observation_horizon (algo_config example_algo)"
  "1 \<le> action_horizon (algo_config example_algo)"
  "0 \<le> action_horizon (algo_config example_algo)"
  "observation_horizon (algo_config example_algo) - 1 + action_horizon (algo_config example_algo)
     \<le> prediction_horizon (algo_config example_algo)"
  "Suc (length [example_obs, example_obs, example_obs]) = nat (action_horizon (algo_config example_algo))"
  by (simp_all add: example_algo_def example_config_def)

lemma example_sampled:
  "get_action_trajectory example_env example_start example_obs None =
     (Inr [[[0], [1], [2], [3]]],
      example_start\<lparr>sampler_log := [example_obs], rng_pos := 8, timesteps := [2, 1, 0]\<rparr>)"
  by (simp add: get_action_trajectory_def example_start_eq example_algo_def example_config_def
        example_env_def num_inference_timesteps_def select_nets_def denoised_actions_def
        slice_actions_def py_slice_def slice_index_def randn_def first_entry_def Let_def
        upt_rec numeral_nat)

subsection \<open>The observation queue\<close>

lemma select_nets_obs_queue [simp]: "select_nets (s\<lparr>obs_queue := oq\<rparr>) = select_nets s"
  by (cases "ema s") (simp_all add: select_nets_def)

lemma denoised_actions_obs_queue [simp]:
  "denoised_actions E (s\<lparr>obs_queue := oq\<rparr>) f n = denoised_actions E s f n"
  by (simp add: denoised_actions_def)

lemma sampler_ignores_obs_queue:
  "get_action_trajectory E (s\<lparr>obs_queue := oq\<rparr>) obs g =
     (fst (get_action_trajectory E s obs g), (snd (get_action_trajectory E s obs g))\<lparr>obs_queue := oq\<rparr>)"
  by (simp add: get_action_trajectory_def Let_def split: sum.splits)

lemma pop_action_ignores_obs_queue:
  "pop_action (s\<lparr>obs_queue := oq\<rparr>) = (fst (pop_action s), (snd (pop_action s))\<lparr>obs_queue := oq\<rparr>)"
  by (simp add: pop_action_def split: option.splits sum.splits prod.splits)

lemma push_actions_ignores_obs_queue:
  "push_actions (s\<lparr>obs_queue := oq\<rparr>) xs =
     (fst (push_actions s xs), (snd (push_actions s xs))\<lparr>obs_queue := oq\<rparr>)"
  by (simp add: push_actions_def split: option.splits)

lemma get_action_ignores_obs_queue:
  "get_action E (s\<lparr>obs_queue := oq\<rparr>) obs g =
     (fst (get_action E s obs g), (snd (get_action E s obs g))\<lparr>obs_queue := oq\<rparr>)"
proof (cases "action_queue s")
  case None
  then show ?thesis by (simp add: get_action_def)
next
  case (Some q)
  show ?thesis
  proof (cases "items q = []")
    case False
    then show ?thesis
      using Some by (simp add: get_action_def pop_action_ignores_obs_queue)
  next
    case True
    obtain r1 s1 where samp: "get_action_trajectory E s obs None = (r1, s1)"
      by (cases "get_action_trajectory E s obs None")
    then have samp': "get_action_trajectory E (s\<lparr>obs_queue := oq\<rparr>) obs None = (r1, s1\<lparr>obs_queue := oq\<rparr>)"
      by (simp add: sampler_ignores_obs_queue)
    show ?thesis
    proof (cases r1)
      case (Inl e)
      then show ?thesis using Some True samp samp' by (simp add: get_action_def)
    next
      case (Inr action_sequence)
      show ?thesis
      proof (cases action_sequence)
        case Nil
        then show ?thesis using Some True samp samp' Inr by (simp add: get_action_def)
      next
        case (Cons row others)
        obtain r2 s2 where push: "push_actions s1 row = (r2, s2)"
          by (cases "push_actions s1 row")
        then have push': "push_actions (s1\<lparr>obs_queue := oq\<rparr>) row = (r2, s2\<lparr>obs_queue := oq\<rparr>)"
          by (simp add: push_actions_ignores_obs_queue)
        show ?thesis
          using Some True samp samp' Inr Cons push push'
          by (cases r2) (simp_all add: get_action_def pop_action_ignores_obs_queue)
      qed
    qed
  qed
qed

lemma get_action_keeps_config:
  "algo_config (snd (get_action E s obs g)) = algo_config s
   \<and> obs_queue (snd (get_action E s obs g)) = obs_queue s"
proof (cases "action_queue s")
  case None
  then show ?thesis by (simp add: get_action_def)
next
  case (Some q)
  obtain r1 s1 where samp: "get_action_trajectory E s obs None = (r1, s1)"
    by (cases "get_action_trajectory E s obs None")
  from sampler_frame [OF samp] obtain p t where
    s1: "s1 = s\<lparr>sampler_log := sampler_log s @ [obs], rng_pos := p, timesteps := t\<rparr>"
    by blast
  show ?thesis
    using Some samp
    by (auto simp: get_action_def push_actions_def pop_action_def deque_popleft_def s1
             split: sum.splits list.splits option.splits)
qed

lemma rollout_obs_queue:
  "rollout_state E s \<Longrightarrow>
     obs_queue s = Some \<lparr>items = [], maxlen = nat (observation_horizon (algo_config s))\<rparr>"
proof (induction rule: rollout_state.induct)
  case (after_reset s0 s)
  from reset_success [OF this] show ?case by (cases s0) simp
next
  case (after_get_action s obs_dict goal_dict r s')
  have "algo_config s' = algo_config s \<and> obs_queue s' = obs_queue s"
    using get_action_keeps_config [of E s obs_dict goal_dict] after_get_action.hyps(2) by simp
  then show ?case using after_get_action.IH by simp
qed

subsection \<open>The parameters the sampler runs on\<close>

lemma denoise_depends_on_selected:
  assumes "pred P = noise_pred_net E P"
  shows "denoise (E\<lparr>obs_encoder := enc, noise_pred_net := pred\<rparr>) P c ts x = denoise E P c ts x"
  using assms by (induction ts arbitrary: x) simp_all

lemma denoised_actions_depends_on_selected:
  assumes "pred (select_nets s) = noise_pred_net E (select_nets s)"
  shows "denoised_actions (E\<lparr>obs_encoder := enc, noise_pred_net := pred\<rparr>) s f n
           = denoised_actions E s f n"
  using assms by (simp add: denoised_actions_def denoise_depends_on_selected)

lemma sampler_depends_on_selected:
  assumes "enc (select_nets s) = obs_encoder E (select_nets s)"
    and "pred (select_nets s) = noise_pred_net E (select_nets s)"
  shows "get_action_trajectory (E\<lparr>obs_encoder := enc, noise_pred_net := pred\<rparr>) s obs goal
           = get_action_trajectory E s obs goal"
  using assms
  by (simp add: get_action_trajectory_def denoised_actions_depends_on_selected Let_def
        split: sum.splits)

lemma sampler_output:
  assumes "get_action_trajectory E s obs goal = (Inr action, s')"
  shows "\<exists>n. num_inference_timesteps (algo_config s) = Inr n
          \<and> action = slice_actions (algo_config s)
              (denoise E (select_nets s)
                 (flatten_feat E (obs_encoder E (select_nets s) obs goal))
                 (set_timesteps E n)
                 (randn (gauss E) (rng_pos s)
                    (feat_batch E (obs_encoder E (select_nets s) obs goal))
                    (nat (prediction_horizon (algo_config s))) (nat (ac_dim s))))"
  using sampler_result [OF assms] by (simp add: denoised_actions_def Let_def)

subsection \<open>The range check\<close>

lemma all_in_range_iff:
  "all_in_range x \<longleftrightarrow> (\<forall>traj \<in> set x. \<forall>a \<in> set traj. \<forall>v \<in> set a. - 1 \<le> v \<and> v \<le> 1)"
  by (simp add: all_in_range_def list_all_iff)

lemma process_batch_checked:
  assumes "action_check_done s"
  shows "\<exists>ib. process_batch_for_training s batch = (Inr ib, s)"
  using assms by (simp add: process_batch_for_training_def Let_def)

lemma process_batch_sets_flag:
  assumes "process_batch_for_training s batch = (Inr ib, s1)"
  shows "action_check_done s1"
  using assms by (auto simp: process_batch_for_training_def Let_def split: if_splits)

lemma process_batches_checked:
  assumes "action_check_done s"
  shows "\<exists>ibs. process_batches s bs = (Inr ibs, s) \<and> length ibs = length bs"
proof (induction bs)
  case Nil
  then show ?case by simp
next
  case (Cons b bs)
  from process_batch_checked [OF assms, of b] obtain ib where
    "process_batch_for_training s b = (Inr ib, s)" by blast
  with Cons.IH show ?case by auto
qed

subsection \<open>Loading a checkpoint\<close>

lemma fill_defaults_fields:
  "md_nets (fill_defaults md) = md_nets md"
  "md_ema (fill_defaults md) = md_ema md"
  "md_optimizers (fill_defaults md) = Some (case md_optimizers md of None \<Rightarrow> [] | Some x \<Rightarrow> x)"
  "md_lr_schedulers (fill_defaults md) = Some (case md_lr_schedulers md of None \<Rightarrow> [] | Some x \<Rightarrow> x)"
  by (cases "md_optimizers md"; cases "md_lr_schedulers md"; simp add: fill_defaults_def)+

lemma fill_defaults_optimizers:
  "md_optimizers md = None \<Longrightarrow> fill_defaults (md\<lparr>md_optimizers := Some []\<rparr>) = fill_defaults md"
  by (simp add: fill_defaults_def)

lemma fill_defaults_lr_schedulers:
  "md_lr_schedulers md = None \<Longrightarrow> fill_defaults (md\<lparr>md_lr_schedulers := Some []\<rparr>) = fill_defaults md"
  by (cases "md_optimizers md") (simp_all add: fill_defaults_def)

lemma fill_defaults_old:
  "md_optimizers md = None \<Longrightarrow> md_lr_schedulers md = None \<Longrightarrow>
     fill_defaults md = md\<lparr>md_optimizers := Some [], md_lr_schedulers := Some []\<rparr>"
  by (simp add: fill_defaults_def)

lemma deserialize_default_optimizers:
  assumes "md_optimizers md = None"
  shows "deserialize s md lo = deserialize s (md\<lparr>md_optimizers := Some []\<rparr>) lo"
  unfolding deserialize_def fill_defaults_optimizers [OF assms] by simp

lemma deserialize_default_lr_schedulers:
  assumes "md_lr_schedulers md = None"
  shows "deserialize s md lo = deserialize s (md\<lparr>md_lr_schedulers := Some []\<rparr>) lo"
  unfolding deserialize_def fill_defaults_lr_schedulers [OF assms] by simp

lemma load_ema_fields:
  assumes "load_ema s md = Inr s2"
  shows "nets s2 = nets s" and "optimizers s2 = optimizers s" and "lr_schedulers s2 = lr_schedulers s"
    and "ema s2 = (case md_ema md of Some (Some e) \<Rightarrow> map_option (\<lambda>m. m\<lparr>averaged_model := e\<rparr>) (ema s)
                   | _ \<Rightarrow> ema s)"
  using assms by (auto simp: load_ema_def split: option.splits)

lemma load_optimizer_states_fields:
  "nets (snd (load_optimizer_states s md)) = nets s"
  "ema (snd (load_optimizer_states s md)) = ema s"
  by (simp_all add: load_optimizer_states_def split: option.splits prod.splits)

lemma deserialize_nets:
  assumes "md_nets md = Some p"
  shows "nets (snd (deserialize s md lo)) = p"
proof (cases "load_ema (s\<lparr>nets := p\<rparr>) (fill_defaults md)")
  case (Inl e)
  then show ?thesis using assms by (simp add: deserialize_def)
next
  case (Inr s2)
  from load_ema_fields(1) [OF Inr] have "nets s2 = p" by simp
  then show ?thesis
    using assms Inr by (simp add: deserialize_def load_optimizer_states_fields)
qed

lemma deserialize_ema_absent:
  assumes "md_ema md = None \<or> md_ema md = Some None"
  shows "ema (snd (deserialize s md lo)) = ema s"
proof (cases "md_nets md")
  case None
  then show ?thesis by (simp add: deserialize_def)
next
  case (Some p)
  have "load_ema (s\<lparr>nets := p\<rparr>) (fill_defaults md) = Inr (s\<lparr>nets := p\<rparr>)"
    using assms by (auto simp: load_ema_def fill_defaults_fields)
  then show ?thesis
    using Some by (simp add: deserialize_def load_optimizer_states_fields)
qed

lemma deserialize_ema_present:
  assumes "md_nets md = Some p" and "md_ema md = Some (Some e)" and "ema s = Some m"
  shows "ema (snd (deserialize s md lo)) = Some (m\<lparr>averaged_model := e\<rparr>)"
proof -
  have "load_ema (s\<lparr>nets := p\<rparr>) (fill_defaults md)
          = Inr (s\<lparr>nets := p, ema := Some (m\<lparr>averaged_model := e\<rparr>)\<rparr>)"
    using assms by (simp add: load_ema_def fill_defaults_fields)
  then show ?thesis
    using assms(1) by (simp add: deserialize_def load_optimizer_states_fields)
qed

lemma deserialize_old_checkpoint:
  assumes "md_nets md = Some p"
    and "md_optimizers md = None"
    and "md_lr_schedulers md = None"
    and "md_ema md = None \<or> md_ema md = Some None \<or> ema s \<noteq> None"
  shows "fst (deserialize s md lo)
           = Inr (md\<lparr>md_optimizers := Some [], md_lr_schedulers := Some []\<rparr>)
       \<and> optimizers (snd (deserialize s md lo)) = optimizers s
       \<and> lr_schedulers (snd (deserialize s md lo)) = lr_schedulers s"
proof -
  let ?md2 = "md\<lparr>md_optimizers := Some [], md_lr_schedulers := Some []\<rparr>"
  have fd: "fill_defaults md = ?md2" using assms(2,3) by (rule fill_defaults_old)
  have "\<exists>s2. load_ema (s\<lparr>nets := p\<rparr>) ?md2 = Inr s2"
    using assms(4) by (auto simp: load_ema_def split: option.splits)
  then obtain s2 where s2: "load_ema (s\<lparr>nets := p\<rparr>) ?md2 = Inr s2" ..
  have keep: "optimizers s2 = optimizers s" "lr_schedulers s2 = lr_schedulers s"
    using load_ema_fields(2,3) [OF s2] by simp_all
  have "load_optimizer_states s2 ?md2 = (Inr ?md2, s2\<lparr>optimizers := optimizers s2, lr_schedulers := lr_schedulers s2\<rparr>)"
    by (simp add: load_optimizer_states_def)
  then show ?thesis
    using assms(1) s2 keep by (simp add: deserialize_def fd)
qed

lemma deserialize_without_optimizers:
  assumes "md_nets md = Some p"
    and "md_ema md = None \<or> md_ema md = Some None \<or> ema s \<noteq> None"
  shows "fst (deserialize s md False) = Inr (fill_defaults md)"
proof -
  have "\<exists>s2. load_ema (s\<lparr>nets := p\<rparr>) (fill_defaults md) = Inr s2"
    using assms(2) by (auto simp: load_ema_def fill_defaults_fields split: option.splits)
  then show ?thesis
    using assms(1) by (auto simp: deserialize_def)
qed

text \<open>A checkpoint written by \<^verbatim>\<open>serialize\<close> loads back into the object it came from.\<close>

lemma example_checkpoint_roundtrip:
  "deserialize example_algo (serialize example_algo) True = (Inr (serialize example_algo), example_algo)"
  by (simp add: deserialize_def serialize_def fill_defaults_def load_ema_def
        load_optimizer_states_def example_algo_def)

text \<open>
  The observation horizon must be at least one for the sampler's window to be the
  entries after the first \<open>To - 1\<close>: with \<open>To = 0\<close> the lower bound of the slice is
  \<open>-1\<close>, which Python counts from the end, the window is empty, and the first
  \<^verbatim>\<open>get_action\<close> of the episode fails on the empty queue.
\<close>

lemma zero_observation_horizon_example:
  "fst (get_action example_env
          (snd (reset (example_algo\<lparr>algo_config := example_config\<lparr>observation_horizon := 0\<rparr>\<rparr>)))
          example_obs None)
     = Inl IndexError"
  by (simp add: get_action_def get_action_trajectory_def reset_def deque_new_def
        push_actions_def pop_action_def deque_popleft_def deque_extend_def
        example_algo_def example_config_def
        example_env_def num_inference_timesteps_def select_nets_def denoised_actions_def
        slice_actions_def py_slice_def slice_index_def randn_def first_entry_def Let_def
        upt_rec numeral_nat)

subsection \<open>The flag of the range check in a run\<close>

lemma train_on_batch_keeps_flag:
  "action_check_done (snd (train_on_batch E s batch validate)) = action_check_done s"
  by (auto simp: train_on_batch_def Let_def split: option.splits prod.splits)

lemma reset_keeps_flag: "action_check_done (snd (reset s)) = action_check_done s"
  by (simp add: reset_def deque_new_def Let_def)

lemma get_action_keeps_flag:
  "action_check_done (snd (get_action E s obs g)) = action_check_done s"
proof (cases "action_queue s")
  case None
  then show ?thesis by (simp add: get_action_def)
next
  case (Some q)
  obtain r1 s1 where samp: "get_action_trajectory E s obs None = (r1, s1)"
    by (cases "get_action_trajectory E s obs None")
  from sampler_frame [OF samp] obtain p t where
    s1: "s1 = s\<lparr>sampler_log := sampler_log s @ [obs], rng_pos := p, timesteps := t\<rparr>"
    by blast
  show ?thesis
    using Some samp
    by (auto simp: get_action_def push_actions_def pop_action_def deque_popleft_def s1
             split: sum.splits list.splits option.splits)
qed

lemma deserialize_keeps_flag:
  "action_check_done (snd (deserialize s md lo)) = action_check_done s"
proof (cases "md_nets md")
  case None
  then show ?thesis by (simp add: deserialize_def)
next
  case (Some p)
  show ?thesis
  proof (cases "load_ema (s\<lparr>nets := p\<rparr>) (fill_defaults md)")
    case (Inl e)
    then show ?thesis using Some by (simp add: deserialize_def)
  next
    case (Inr s2)
    then have "action_check_done s2 = action_check_done s"
      by (auto simp: load_ema_def split: option.splits)
    moreover have "action_check_done (snd (load_optimizer_states s2 (fill_defaults md)))
                     = action_check_done s2"
      by (simp add: load_optimizer_states_def split: option.splits prod.splits)
    ultimately show ?thesis using Some Inr by (simp add: deserialize_def)
  qed
qed

lemma process_batch_keeps_flag:
  "action_check_done s \<Longrightarrow> action_check_done (snd (process_batch_for_training s batch))"
  by (simp add: process_batch_for_training_def Let_def)

lemma call_method_keeps_flag:
  "action_check_done s \<Longrightarrow> action_check_done (call_method E s c)"
  by (cases c)
     (simp_all add: process_batch_keeps_flag train_on_batch_keeps_flag reset_keeps_flag
        get_action_keeps_flag deserialize_keeps_flag)

lemma run_methods_keeps_flag:
  "action_check_done s \<Longrightarrow> action_check_done (run_methods E s cs)"
  by (induction cs arbitrary: s) (simp_all add: call_method_keeps_flag)

subsection \<open>The refill of the action queue\<close>




section \<open>The claims\<close>

subsection \<open>C1: the bound of the action queue\<close>



subsection \<open>C2: one sampler invocation per action horizon\<close>

text \<open>
  Claim C2: in an episode started by \<^verbatim>\<open>reset\<close>, with \<open>Tp \<ge> To - 1 + Ta\<close>, the
  first \<open>Ta\<close> calls of \<^verbatim>\<open>get_action\<close> succeed and invoke the sampler exactly once
  (the log of invocations grows by the one entry of the first call), and call
  \<open>Ta + 1\<close> invokes it a second time. The horizons are positive, the sampler's
  preconditions hold for the first observation, and the scheduler's step keeps the
  shape of the sample.
\<close>

theorem sampler_invoked_once_per_action_horizon:
  assumes "reset s0 = (Inr (), s)"
    and "sampler_ready E s0 obs"
    and "step_keeps_shape E"
    and "1 \<le> observation_horizon (algo_config s0)"
    and "1 \<le> action_horizon (algo_config s0)"
    and "observation_horizon (algo_config s0) - 1 + action_horizon (algo_config s0)
           \<le> prediction_horizon (algo_config s0)"
    and "Suc (length rest) = nat (action_horizon (algo_config s0))"
  shows "\<exists>actions s1.
           get_actions E s (obs # rest) = (Inr actions, s1)
           \<and> length actions = nat (action_horizon (algo_config s0))
           \<and> sampler_log s1 = sampler_log s0 @ [obs]
           \<and> sampler_log (snd (get_action E s1 obs' goal')) = sampler_log s0 @ [obs, obs']"
proof -
  let ?q = "\<lparr>items = [], maxlen = nat (action_horizon (algo_config s0))\<rparr> :: action deque"
  from episode [OF assms] obtain traj others s1 where
    samp: "get_action_trajectory E s obs None = (Inr (traj # others), s1)"
    and lt: "length traj = nat (action_horizon (algo_config s0))"
    and run: "get_actions E s (obs # rest) = (Inr (map (\<lambda>a. [a]) traj), s1\<lparr>action_queue := Some ?q\<rparr>)"
    by blast
  from sampler_frame [OF samp] obtain p t where
    s1: "s1 = s\<lparr>sampler_log := sampler_log s @ [obs], rng_pos := p, timesteps := t\<rparr>"
    by blast
  have log0: "sampler_log s = sampler_log s0"
    using reset_success [OF assms(1)] by (cases s0) simp
  let ?s2 = "s1\<lparr>action_queue := Some ?q\<rparr>"
  have log2: "sampler_log ?s2 = sampler_log s0 @ [obs]"
    by (simp add: s1 log0)
  have "sampler_log (snd (get_action E ?s2 obs' goal')) = sampler_log ?s2 @ [obs']"
    by (simp add: get_action_log)
  with log2 have "sampler_log (snd (get_action E ?s2 obs' goal')) = sampler_log s0 @ [obs, obs']"
    by simp
  with run lt log2 show ?thesis by simp
qed

text \<open>Claim C2 on the example policy: four calls, one invocation; the fifth invokes again.\<close>

theorem sampler_invoked_once_per_action_horizon_witness:
  "reset example_algo = (Inr (), example_start)
   \<and> sampler_ready example_env example_algo example_obs
   \<and> step_keeps_shape example_env
   \<and> (\<exists>actions s1.
         get_actions example_env example_start [example_obs, example_obs, example_obs, example_obs]
           = (Inr actions, s1)
         \<and> length actions = 4
         \<and> sampler_log s1 = [example_obs]
         \<and> sampler_log (snd (get_action example_env s1 [] None)) = [example_obs, []])"
  using sampler_invoked_once_per_action_horizon
          [OF example_reset example_ready example_step_keeps_shape example_horizons(1,2,4,5),
           of "[]" None]
        example_reset example_ready example_step_keeps_shape
  by (simp add: example_algo_def example_config_def)

subsection \<open>C3: the actions returned are the sampled trajectory, in order\<close>

text \<open>
  Claim C3: under the same conditions, the actions returned by the \<open>Ta\<close> calls are,
  in order, the first \<open>Ta\<close> entries of the trajectory that the sampler produced for
  the observation of the first call: call \<open>i\<close> returns entry \<open>i\<close>, so no entry is
  returned twice, and the queue is empty afterwards.
\<close>

theorem actions_follow_sampled_trajectory:
  assumes "reset s0 = (Inr (), s)"
    and "sampler_ready E s0 obs"
    and "step_keeps_shape E"
    and "1 \<le> observation_horizon (algo_config s0)"
    and "1 \<le> action_horizon (algo_config s0)"
    and "observation_horizon (algo_config s0) - 1 + action_horizon (algo_config s0)
           \<le> prediction_horizon (algo_config s0)"
    and "Suc (length rest) = nat (action_horizon (algo_config s0))"
  shows "\<exists>traj others s1 actions s2.
           get_action_trajectory E s obs None = (Inr (traj # others), s1)
           \<and> get_actions E s (obs # rest) = (Inr actions, s2)
           \<and> actions = map (\<lambda>a. [a]) (take (nat (action_horizon (algo_config s0))) traj)
           \<and> (\<forall>i < nat (action_horizon (algo_config s0)). actions ! i = [traj ! i])
           \<and> action_queue s2 = Some \<lparr>items = [], maxlen = nat (action_horizon (algo_config s0))\<rparr>"
proof -
  let ?q = "\<lparr>items = [], maxlen = nat (action_horizon (algo_config s0))\<rparr> :: action deque"
  from episode [OF assms] obtain traj others s1 where
    samp: "get_action_trajectory E s obs None = (Inr (traj # others), s1)"
    and lt: "length traj = nat (action_horizon (algo_config s0))"
    and run: "get_actions E s (obs # rest) = (Inr (map (\<lambda>a. [a]) traj), s1\<lparr>action_queue := Some ?q\<rparr>)"
    by blast
  have "\<forall>i < nat (action_horizon (algo_config s0)). map (\<lambda>a. [a]) traj ! i = [traj ! i]"
    using lt by simp
  with samp run lt show ?thesis by simp
qed

text \<open>Claim C3 on the example policy: the sampled trajectory 0, 1, 2, 3 is returned in order.\<close>

theorem actions_follow_sampled_trajectory_witness:
  "reset example_algo = (Inr (), example_start)
   \<and> sampler_ready example_env example_algo example_obs
   \<and> step_keeps_shape example_env
   \<and> fst (get_actions example_env example_start [example_obs, example_obs, example_obs, example_obs])
       = Inr [[[0]], [[1]], [[2]], [[3]]]"
  using actions_follow_sampled_trajectory
          [OF example_reset example_ready example_step_keeps_shape example_horizons(1,2,4,5)]
        example_reset example_ready example_step_keeps_shape
  by (auto simp: example_sampled example_algo_def example_config_def)

subsection \<open>C4: a range violation in the first batch\<close>

text \<open>
  Claim C4 says that any action value outside \<open>[-1, 1]\<close> in the first training batch
  makes batch processing fail, so that no gradient step is applied. The check reads
  the actions after the cut \<^verbatim>\<open>[:, :Tp, :]\<close>: on the example policy, whose prediction
  horizon is 8, a first batch of nine time steps with the value 1.5 at the ninth is
  accepted, and the training step that follows changes the networks from 1 to 2.
\<close>

theorem late_violation_passes_range_check:
  "\<not> action_check_done example_trainee
   \<and> 3 / 2 \<in> set (concat (concat (batch_actions example_batch_late_violation)))
   \<and> fst (process_batch_for_training example_trainee example_batch_late_violation)
       = Inr \<lparr>batch_obs = [(''robot0_eef_pos'', [[1, 2]])], batch_goal_obs = None,
              batch_actions = [[[0], [0], [0], [0], [0], [0], [0], [0]]]\<rparr>
   \<and> fst (train_step example_env example_trainee example_batch_late_violation True)
       = Inr \<lparr>l2_loss = 0, policy_grad_norms = Some 0\<rparr>
   \<and> nets example_trainee = 1
   \<and> nets (snd (train_step example_env example_trainee example_batch_late_violation True)) = 2"
  by (simp add: train_step_def process_batch_for_training_def train_on_batch_def
        example_trainee_def example_algo_def example_config_def example_env_def
        example_batch_late_violation_def all_in_range_def py_slice_def slice_index_def
        shape3_def randn_def Let_def)

text \<open>
  Claim C4, amended: on the first training batch (the flag \<^verbatim>\<open>action_check_done\<close> is
  not yet set), if any action value within the first \<open>Tp\<close> time steps of the batch
  lies outside \<open>[-1, 1]\<close>, then \<^verbatim>\<open>process_batch_for_training\<close> raises the
  \<^verbatim>\<open>ValueError\<close> of the range check and leaves the object as it was; the training
  step ends there, so no gradient step is applied and the trainable parameters are
  unchanged.
\<close>

theorem first_batch_out_of_range_rejected:
  assumes "\<not> action_check_done s"
    and "traj \<in> set (batch_actions batch)"
    and "a \<in> set (py_slice 0 (prediction_horizon (algo_config s)) traj)"
    and "v \<in> set a"
    and "v < - 1 \<or> 1 < v"
  shows "process_batch_for_training s batch = (Inl ValueError, s)
       \<and> train_step E s batch update_params = (Inl ValueError, s)"
proof -
  have "\<not> all_in_range (map (py_slice 0 (prediction_horizon (algo_config s))) (batch_actions batch))"
    using assms(2-5) by (fastforce simp: all_in_range_iff)
  then have "process_batch_for_training s batch = (Inl ValueError, s)"
    using assms(1) by (simp add: process_batch_for_training_def Let_def)
  then show ?thesis by (simp add: train_step_def)
qed

text \<open>The amended claim C4 on the batch with the value 1.5 at the second time step.\<close>

theorem first_batch_out_of_range_rejected_witness:
  "\<not> action_check_done example_trainee
   \<and> [[0], [3 / 2], [0], [0], [0], [0], [0], [0], [0]]
        \<in> set (batch_actions example_batch_early_violation)
   \<and> [3 / 2] \<in> set (py_slice 0 (prediction_horizon (algo_config example_trainee))
                        [[0], [3 / 2], [0], [0], [0], [0], [0], [0], [0 :: real]])
   \<and> (3 / 2 :: real) \<in> set [3 / 2]
   \<and> (1 :: real) < 3 / 2
   \<and> process_batch_for_training example_trainee example_batch_early_violation
       = (Inl ValueError, example_trainee)
   \<and> train_step example_env example_trainee example_batch_early_violation True
       = (Inl ValueError, example_trainee)"
proof -
  have h1: "\<not> action_check_done example_trainee"
    by (simp add: example_trainee_def example_algo_def)
  have h2: "[[0], [3 / 2], [0], [0], [0], [0], [0], [0], [0]]
              \<in> set (batch_actions example_batch_early_violation)"
    by (simp add: example_batch_early_violation_def)
  have h3: "[3 / 2] \<in> set (py_slice 0 (prediction_horizon (algo_config example_trainee))
                        [[0], [3 / 2], [0], [0], [0], [0], [0], [0], [0 :: real]])"
    by (simp add: py_slice_def slice_index_def example_trainee_def example_algo_def
          example_config_def)
  have h4: "(3 / 2 :: real) \<in> set [3 / 2]" by simp
  have h5: "(3 / 2 :: real) < - 1 \<or> (1 :: real) < 3 / 2" by simp
  from first_batch_out_of_range_rejected [OF h1 h2 h3 h4 h5, of example_env True] h1 h2 h3
  show ?thesis by simp
qed

subsection \<open>C5: the range check runs once\<close>

text \<open>
  Claim C5: once a batch has been accepted by \<^verbatim>\<open>process_batch_for_training\<close>, the
  flag \<^verbatim>\<open>action_check_done\<close> is set and no method of the class clears it: after any
  sequence of calls of \<^verbatim>\<open>process_batch_for_training\<close>, \<^verbatim>\<open>train_on_batch\<close>,
  \<^verbatim>\<open>reset\<close>, \<^verbatim>\<open>get_action\<close> and \<^verbatim>\<open>deserialize\<close>, whatever their arguments and
  outcomes, the flag is still set, and every batch handed to
  \<^verbatim>\<open>process_batch_for_training\<close> then is accepted without the range check,
  whatever its action values, and leaves the object as it is. In particular the
  batches of any list processed back to back are all accepted.
\<close>

theorem range_check_runs_once:
  assumes "process_batch_for_training s batch = (Inr ib, s1)"
  shows "action_check_done s1
       \<and> (\<forall>cs. action_check_done (run_methods E s1 cs)
              \<and> (\<forall>b. \<exists>ib'. process_batch_for_training (run_methods E s1 cs) b
                             = (Inr ib', run_methods E s1 cs)))
       \<and> (\<forall>bs. \<exists>ibs. process_batches s1 bs = (Inr ibs, s1) \<and> length ibs = length bs)"
proof -
  have f: "action_check_done s1" using assms by (rule process_batch_sets_flag)
  have "action_check_done (run_methods E s1 cs)
        \<and> (\<forall>b. \<exists>ib'. process_batch_for_training (run_methods E s1 cs) b
                       = (Inr ib', run_methods E s1 cs))" for cs
    using run_methods_keeps_flag [OF f, of E cs] process_batch_checked by blast
  with f process_batches_checked [OF f] show ?thesis by blast
qed

text \<open>
  Claim C5 on the example policy: after the batch within the range, a training step,
  a rollout step and the loading of a checkpoint, the batch with the value 1.5 at the
  second time step is accepted.
\<close>

theorem range_check_runs_once_witness:
  "process_batch_for_training example_trainee example_batch
     = (Inr \<lparr>batch_obs = [(''robot0_eef_pos'', [[1, 2]])], batch_goal_obs = None,
             batch_actions = [[[0], [1 / 2], [- 1], [1], [0], [0], [0], [0]]]\<rparr>,
        example_trainee\<lparr>action_check_done := True\<rparr>)
   \<and> action_check_done
        (run_methods example_env (example_trainee\<lparr>action_check_done := True\<rparr>)
           [TrainOnBatch example_batch False, Reset, GetAction example_obs None,
            Deserialize example_old_checkpoint True])
   \<and> (\<exists>ib'. process_batch_for_training
               (run_methods example_env (example_trainee\<lparr>action_check_done := True\<rparr>)
                  [TrainOnBatch example_batch False, Reset, GetAction example_obs None,
                   Deserialize example_old_checkpoint True])
               example_batch_early_violation
             = (Inr ib',
                run_methods example_env (example_trainee\<lparr>action_check_done := True\<rparr>)
                  [TrainOnBatch example_batch False, Reset, GetAction example_obs None,
                   Deserialize example_old_checkpoint True]))"
proof -
  have run: "process_batch_for_training example_trainee example_batch
     = (Inr \<lparr>batch_obs = [(''robot0_eef_pos'', [[1, 2]])], batch_goal_obs = None,
             batch_actions = [[[0], [1 / 2], [- 1], [1], [0], [0], [0], [0]]]\<rparr>,
        example_trainee\<lparr>action_check_done := True\<rparr>)"
    by (simp add: process_batch_for_training_def example_trainee_def example_algo_def
          example_config_def example_batch_def all_in_range_def py_slice_def slice_index_def
          Let_def)
  from range_check_runs_once [OF run, of example_env] run show ?thesis by blast
qed

subsection \<open>C6: the window returned by the sampler\<close>

text \<open>
  Claim C6: a sampler invocation that returns gives back, for every element of the
  batch, the slice \<open>[To - 1, To - 1 + Ta)\<close> along the time axis of the denoised
  trajectory, whose length is \<open>Tp\<close>; when \<open>Tp \<ge> To - 1 + Ta\<close> these are the \<open>Ta\<close>
  entries that follow the first \<open>To - 1\<close>, so exactly \<open>Ta\<close> action vectors. The
  observation horizon is at least one, the action horizon is not negative, and the
  scheduler's step keeps the shape of the sample.
\<close>

theorem sampler_returns_action_window:
  assumes "get_action_trajectory E s obs goal = (Inr action, s')"
    and "step_keeps_shape E"
    and "1 \<le> observation_horizon (algo_config s)"
    and "0 \<le> action_horizon (algo_config s)"
    and "observation_horizon (algo_config s) - 1 + action_horizon (algo_config s)
           \<le> prediction_horizon (algo_config s)"
  shows "\<exists>n. num_inference_timesteps (algo_config s) = Inr n
           \<and> (let naction = denoised_actions E s (obs_encoder E (select_nets s) obs goal) n
              in (\<forall>row \<in> set naction. length row = nat (prediction_horizon (algo_config s)))
                 \<and> action = map (py_slice (observation_horizon (algo_config s) - 1)
                                    (observation_horizon (algo_config s) - 1
                                       + action_horizon (algo_config s))) naction
                 \<and> action = map (\<lambda>row. take (nat (action_horizon (algo_config s)))
                                          (drop (nat (observation_horizon (algo_config s) - 1)) row))
                                naction
                 \<and> (\<forall>traj \<in> set action. length traj = nat (action_horizon (algo_config s))))"
proof -
  let ?cfg = "algo_config s"
  from sampler_result [OF assms(1)] obtain n where
    n: "num_inference_timesteps ?cfg = Inr n"
    and act: "action = slice_actions ?cfg (denoised_actions E s (obs_encoder E (select_nets s) obs goal) n)"
    by blast
  let ?x = "denoised_actions E s (obs_encoder E (select_nets s) obs goal) n"
  have shp: "map length ?x
      = replicate (feat_batch E (obs_encoder E (select_nets s) obs goal)) (nat (prediction_horizon ?cfg))"
    using assms(2) by (rule denoised_actions_shape)
  have rows: "\<forall>row \<in> set ?x. length row = nat (prediction_horizon ?cfg)"
    using rows_of_replicate [OF shp] by blast
  have a1: "action = map (py_slice (observation_horizon ?cfg - 1)
                            (observation_horizon ?cfg - 1 + action_horizon ?cfg)) ?x"
    by (simp add: act slice_actions_def Let_def)
  have a2: "action = map (\<lambda>row. take (nat (action_horizon ?cfg))
                                  (drop (nat (observation_horizon ?cfg - 1)) row)) ?x"
    by (simp add: act slice_actions_window [OF assms(3,4)])
  have lens: "\<forall>traj \<in> set action. length traj = nat (action_horizon ?cfg)"
  proof
    fix traj assume "traj \<in> set action"
    then obtain row where "row \<in> set ?x"
      and "traj = take (nat (action_horizon ?cfg)) (drop (nat (observation_horizon ?cfg - 1)) row)"
      unfolding a2 by auto
    moreover from this rows have "length row = nat (prediction_horizon ?cfg)" by blast
    ultimately show "length traj = nat (action_horizon ?cfg)"
      using assms(3,4,5) by simp
  qed
  show ?thesis
    unfolding Let_def
  proof (intro exI conjI)
    show "num_inference_timesteps ?cfg = Inr n" by (rule n)
    show "\<forall>row \<in> set ?x. length row = nat (prediction_horizon ?cfg)" by (rule rows)
    show "action = map (py_slice (observation_horizon ?cfg - 1)
                            (observation_horizon ?cfg - 1 + action_horizon ?cfg)) ?x" by (rule a1)
    show "action = map (\<lambda>row. take (nat (action_horizon ?cfg))
                                  (drop (nat (observation_horizon ?cfg - 1)) row)) ?x" by (rule a2)
    show "\<forall>traj \<in> set action. length traj = nat (action_horizon ?cfg)" by (rule lens)
  qed
qed

text \<open>Claim C6 on the example policy: entries 1 to 4 of the eight denoised ones.\<close>

theorem sampler_returns_action_window_witness:
  "get_action_trajectory example_env example_start example_obs None =
     (Inr [[[0], [1], [2], [3]]],
      example_start\<lparr>sampler_log := [example_obs], rng_pos := 8, timesteps := [2, 1, 0]\<rparr>)
   \<and> step_keeps_shape example_env
   \<and> length [[0], [1], [2], [3 :: real]] = nat (action_horizon (algo_config example_start))"
proof -
  have cfg: "algo_config example_start = example_config"
    by (simp add: example_start_eq example_algo_def)
  have h: "1 \<le> observation_horizon (algo_config example_start)"
    "0 \<le> action_horizon (algo_config example_start)"
    "observation_horizon (algo_config example_start) - 1 + action_horizon (algo_config example_start)
       \<le> prediction_horizon (algo_config example_start)"
    by (simp_all add: cfg example_config_def)
  from sampler_returns_action_window [OF example_sampled example_step_keeps_shape h]
  have "\<forall>traj \<in> set [[[0], [1], [2], [3 :: real]]].
          length traj = nat (action_horizon (algo_config example_start))"
    by (auto simp: Let_def)
  then have "length [[0], [1], [2], [3 :: real]] = nat (action_horizon (algo_config example_start))"
    by simp
  with example_sampled example_step_keeps_shape show ?thesis by blast
qed

subsection \<open>C7: the sampler runs on the averaged parameters\<close>

text \<open>
  Claim C7: when the object has a moving average (\<^verbatim>\<open>self.ema is not None\<close>), a
  sampler invocation encodes the observation and predicts the noise with
  \<^verbatim>\<open>self.ema.averaged_model\<close>, and with the trainable networks otherwise. With \<open>P\<close>
  the parameter set so selected: the outcome of the invocation does not change when
  the encoder and the predictor are replaced by any others that agree with them at
  \<open>P\<close>; a returned trajectory is the window of the denoising run in which the
  encoder and every noise prediction are applied to \<open>P\<close>; and with a moving average
  the result does not depend on the trainable networks.
\<close>

theorem sampler_runs_on_ema_parameters:
  assumes "(\<exists>e. ema s = Some e \<and> P = averaged_model e) \<or> (ema s = None \<and> P = nets s)"
  shows "(\<forall>enc pred. enc P = obs_encoder E P \<and> pred P = noise_pred_net E P \<longrightarrow>
            get_action_trajectory (E\<lparr>obs_encoder := enc, noise_pred_net := pred\<rparr>) s obs goal
              = get_action_trajectory E s obs goal)
       \<and> (\<forall>action s'. get_action_trajectory E s obs goal = (Inr action, s') \<longrightarrow>
            (\<exists>n. num_inference_timesteps (algo_config s) = Inr n
               \<and> action = slice_actions (algo_config s)
                   (denoise E P (flatten_feat E (obs_encoder E P obs goal)) (set_timesteps E n)
                      (randn (gauss E) (rng_pos s) (feat_batch E (obs_encoder E P obs goal))
                         (nat (prediction_horizon (algo_config s))) (nat (ac_dim s))))))
       \<and> (ema s \<noteq> None \<longrightarrow>
            (\<forall>p. fst (get_action_trajectory E (s\<lparr>nets := p\<rparr>) obs goal)
                   = fst (get_action_trajectory E s obs goal)))"
proof -
  have P: "P = select_nets s" using assms by (auto simp: select_nets_def)
  have indep: "fst (get_action_trajectory E (s\<lparr>nets := p\<rparr>) obs goal)
                 = fst (get_action_trajectory E s obs goal)" if "ema s \<noteq> None" for p
  proof -
    from that obtain e where e: "ema s = Some e" by auto
    have sel: "select_nets (s\<lparr>nets := p\<rparr>) = select_nets s"
      by (simp add: select_nets_def e)
    have den: "denoised_actions E (s\<lparr>nets := p\<rparr>) f n = denoised_actions E s f n" for f n
      by (simp add: denoised_actions_def sel)
    show ?thesis
      by (simp add: get_action_trajectory_def Let_def sel den split: sum.splits)
  qed
  show ?thesis
    unfolding P using sampler_depends_on_selected sampler_output indep by blast
qed

text \<open>
  Claim C7 on the example policy, whose averaged parameter set is 2 and whose
  trainable one is 1: an encoder and a predictor that agree with the example's at 2
  only give the same outcome.
\<close>

theorem sampler_runs_on_ema_parameters_witness:
  "ema example_start = Some \<lparr>averaged_model = 2, optimization_step = 0\<rparr>
   \<and> get_action_trajectory
        (example_env\<lparr>obs_encoder := (\<lambda>p obs goal. if p = 2 then 2 else 0),
                     noise_pred_net := (\<lambda>p x k c. if p = 2 then map (map (map (\<lambda>v. v * 2))) x else [])\<rparr>)
        example_start example_obs None
       = get_action_trajectory example_env example_start example_obs None
   \<and> fst (get_action_trajectory example_env (example_start\<lparr>nets := 7\<rparr>) example_obs None)
       = Inr [[[0], [1], [2], [3]]]"
proof -
  have e: "ema example_start = Some \<lparr>averaged_model = 2, optimization_step = 0\<rparr>"
    by (simp add: example_start_eq example_algo_def)
  then have h: "(\<exists>e. ema example_start = Some e \<and> (2 :: nat) = averaged_model e)
                 \<or> (ema example_start = None \<and> 2 = nets example_start)"
    by simp
  have a1: "(\<lambda>p (obs :: nat obs_dict) (goal :: nat obs_dict option). if p = 2 then 2 else (0 :: nat)) 2
              = obs_encoder example_env 2"
    by (simp add: example_env_def)
  have a2: "(\<lambda>p x (k :: timestep) (c :: nat).
               if p = (2 :: nat) then map (map (map (\<lambda>v. v * 2))) x else ([] :: tensor3)) 2
              = noise_pred_net example_env 2"
    by (simp add: example_env_def)
  from sampler_runs_on_ema_parameters [OF h, of example_env example_obs None] a1 a2 e
  show ?thesis
    using example_sampled by simp
qed

subsection \<open>C8: sampling is asserted to run in evaluation mode\<close>

text \<open>
  Claim C8: a sampler invocation with the networks in training mode fails at the
  first statement, the assertion \<^verbatim>\<open>not self.nets.training\<close>: whatever the encoder,
  the predictor and the scheduler are, the outcome is that assertion's error, and the
  scheduler and the random generator are as before (only the ghost log has the new
  entry). With the networks in evaluation mode that assertion never fails.
\<close>

theorem sampler_asserts_evaluation_mode:
  "(training s \<longrightarrow>
      get_action_trajectory E s obs goal =
        (Inl (AssertionError NetsTraining), s\<lparr>sampler_log := sampler_log s @ [obs]\<rparr>))
   \<and> (\<not> training s \<longrightarrow>
      fst (get_action_trajectory E s obs goal) \<noteq> Inl (AssertionError NetsTraining))"
proof (intro conjI impI)
  assume "training s"
  then show "get_action_trajectory E s obs goal =
        (Inl (AssertionError NetsTraining), s\<lparr>sampler_log := sampler_log s @ [obs]\<rparr>)"
    by (simp add: get_action_trajectory_def)
next
  assume ev: "\<not> training s"
  have "num_inference_timesteps (algo_config s) \<noteq> Inl (AssertionError NetsTraining)"
    by (simp add: num_inference_timesteps_def)
  then show "fst (get_action_trajectory E s obs goal) \<noteq> Inl (AssertionError NetsTraining)"
    using ev by (auto simp: get_action_trajectory_def Let_def split: sum.splits)
qed

text \<open>Claim C8 on the example policy, in training mode and in evaluation mode.\<close>

theorem sampler_asserts_evaluation_mode_witness:
  "training example_trainee
   \<and> get_action_trajectory example_env example_trainee example_obs None
       = (Inl (AssertionError NetsTraining), example_trainee\<lparr>sampler_log := [example_obs]\<rparr>)
   \<and> \<not> training example_start
   \<and> fst (get_action_trajectory example_env example_start example_obs None)
       \<noteq> Inl (AssertionError NetsTraining)"
proof -
  have t: "training example_trainee" by (simp add: example_trainee_def)
  have l: "sampler_log example_trainee = []" by (simp add: example_trainee_def example_algo_def)
  have n: "\<not> training example_start" by (simp add: example_start_eq example_algo_def)
  from sampler_asserts_evaluation_mode [of example_trainee example_env example_obs None]
    sampler_asserts_evaluation_mode [of example_start example_env example_obs None] t n l
  show ?thesis by simp
qed

subsection \<open>C9: loading a checkpoint without optimiser keys\<close>

text \<open>
  Claim C9: \<^verbatim>\<open>deserialize\<close> treats a missing \<^verbatim>\<open>"optimizers"\<close> or
  \<^verbatim>\<open>"lr_schedulers"\<close> key as the empty mapping: the call behaves as on the
  checkpoint with the empty mapping stored under the key. A checkpoint that has the
  networks and neither key loads without an error, with or without
  \<^verbatim>\<open>load_optimizers\<close>, and leaves the optimisers and schedulers as they were
  (provided the object has a moving average if the checkpoint brings one); without
  \<^verbatim>\<open>load_optimizers\<close> any checkpoint that has the networks loads without an error,
  and the call leaves the dictionary with the defaults filled in. The networks are
  loaded whenever the checkpoint has them; the moving average is left
  alone when the checkpoint's \<^verbatim>\<open>"ema"\<close> is missing or \<^verbatim>\<open>None\<close>, and loaded
  otherwise.
\<close>

theorem deserialize_tolerates_missing_keys:
  "(md_optimizers md = None \<longrightarrow>
      deserialize s md lo = deserialize s (md\<lparr>md_optimizers := Some []\<rparr>) lo)
   \<and> (md_lr_schedulers md = None \<longrightarrow>
      deserialize s md lo = deserialize s (md\<lparr>md_lr_schedulers := Some []\<rparr>) lo)
   \<and> (md_nets md = Some p \<and> md_optimizers md = None \<and> md_lr_schedulers md = None
        \<and> (md_ema md = None \<or> md_ema md = Some None \<or> ema s \<noteq> None) \<longrightarrow>
      fst (deserialize s md lo) = Inr (md\<lparr>md_optimizers := Some [], md_lr_schedulers := Some []\<rparr>)
      \<and> optimizers (snd (deserialize s md lo)) = optimizers s
      \<and> lr_schedulers (snd (deserialize s md lo)) = lr_schedulers s)
   \<and> (md_nets md = Some p \<and> (md_ema md = None \<or> md_ema md = Some None \<or> ema s \<noteq> None) \<longrightarrow>
      fst (deserialize s md False) = Inr (fill_defaults md))
   \<and> (md_nets md = Some p \<longrightarrow> nets (snd (deserialize s md lo)) = p)
   \<and> (md_ema md = None \<or> md_ema md = Some None \<longrightarrow> ema (snd (deserialize s md lo)) = ema s)
   \<and> (md_nets md = Some p \<and> md_ema md = Some (Some e) \<and> ema s = Some m \<longrightarrow>
      ema (snd (deserialize s md lo)) = Some (m\<lparr>averaged_model := e\<rparr>))"
  using deserialize_default_optimizers [of md s lo] deserialize_default_lr_schedulers [of md s lo]
    deserialize_old_checkpoint [of md p s lo] deserialize_nets [of md p s lo]
    deserialize_without_optimizers [of md p s]
    deserialize_ema_absent [of md s lo] deserialize_ema_present [of md p e s m lo]
  by blast

text \<open>Claim C9 on the example policy and a checkpoint of the older format.\<close>

theorem deserialize_tolerates_missing_keys_witness:
  "md_nets example_old_checkpoint = Some 5
   \<and> md_optimizers example_old_checkpoint = None
   \<and> md_lr_schedulers example_old_checkpoint = None
   \<and> md_ema example_old_checkpoint = Some (Some 9)
   \<and> ema example_algo = Some \<lparr>averaged_model = 2, optimization_step = 0\<rparr>
   \<and> deserialize example_algo example_old_checkpoint True
       = deserialize example_algo (example_old_checkpoint\<lparr>md_optimizers := Some []\<rparr>) True
   \<and> fst (deserialize example_algo example_old_checkpoint True)
       = Inr (example_old_checkpoint\<lparr>md_optimizers := Some [], md_lr_schedulers := Some []\<rparr>)
   \<and> optimizers (snd (deserialize example_algo example_old_checkpoint True)) = [(''policy'', 0)]
   \<and> nets (snd (deserialize example_algo example_old_checkpoint True)) = 5
   \<and> ema (snd (deserialize example_algo example_old_checkpoint True))
       = Some \<lparr>averaged_model = 9, optimization_step = 0\<rparr>"
proof -
  have h: "md_nets example_old_checkpoint = Some 5"
    "md_optimizers example_old_checkpoint = None"
    "md_lr_schedulers example_old_checkpoint = None"
    "md_ema example_old_checkpoint = Some (Some 9)"
    by (simp_all add: example_old_checkpoint_def)
  have e: "ema example_algo = Some \<lparr>averaged_model = 2, optimization_step = 0\<rparr>"
    and o: "optimizers example_algo = [(''policy'', 0)]"
    by (simp_all add: example_algo_def)
  have e': "ema example_algo \<noteq> None" by (simp add: e)
  note T = deserialize_tolerates_missing_keys
             [of example_old_checkpoint example_algo True 5 9
                 "\<lparr>averaged_model = 2, optimization_step = 0\<rparr>"]
  have c1: "deserialize example_algo example_old_checkpoint True
              = deserialize example_algo (example_old_checkpoint\<lparr>md_optimizers := Some []\<rparr>) True"
    using T h(2) by blast
  have c2: "fst (deserialize example_algo example_old_checkpoint True)
              = Inr (example_old_checkpoint\<lparr>md_optimizers := Some [], md_lr_schedulers := Some []\<rparr>)"
    and "optimizers (snd (deserialize example_algo example_old_checkpoint True))
              = optimizers example_algo"
    using T h e' by blast+
  then have c3: "optimizers (snd (deserialize example_algo example_old_checkpoint True))
              = [(''policy'', 0)]"
    by (simp only: o)
  have c4: "nets (snd (deserialize example_algo example_old_checkpoint True)) = 5"
    using T h(1) by blast
  have "ema (snd (deserialize example_algo example_old_checkpoint True))
          = Some (\<lparr>averaged_model = 2, optimization_step = 0\<rparr>\<lparr>averaged_model := 9\<rparr>)"
    using T h(1,4) e by blast
  then have c5: "ema (snd (deserialize example_algo example_old_checkpoint True))
          = Some \<lparr>averaged_model = 9, optimization_step = 0\<rparr>"
    by simp
  show ?thesis by (intro conjI h e c1 c2 c3 c4 c5)
qed

subsection \<open>C10: the observation queue is never used\<close>

text \<open>
  Claim C10: in every state of a rollout the observation queue is the empty queue of
  capacity \<open>To\<close> that \<^verbatim>\<open>reset\<close> created. A \<^verbatim>\<open>get_action\<close> call leaves it as it
  is and does not read it: with any other value in its place the call has the same
  outcome and the same effect on the rest of the state. When the call invokes the
  sampler (the action queue is empty), the observation passed to the sampler is the
  \<^verbatim>\<open>obs_dict\<close> argument of the call.
\<close>

theorem obs_queue_never_used:
  assumes "rollout_state E s"
  shows "obs_queue s = Some \<lparr>items = [], maxlen = nat (observation_horizon (algo_config s))\<rparr>
       \<and> obs_queue (snd (get_action E s obs goal)) = obs_queue s
       \<and> (\<forall>oq. get_action E (s\<lparr>obs_queue := oq\<rparr>) obs goal =
                 (fst (get_action E s obs goal), (snd (get_action E s obs goal))\<lparr>obs_queue := oq\<rparr>))
       \<and> sampler_log (snd (get_action E s obs goal)) =
           (case action_queue s of
              None \<Rightarrow> sampler_log s
            | Some q \<Rightarrow> if items q = [] then sampler_log s @ [obs] else sampler_log s)"
  using rollout_obs_queue [OF assms] get_action_keeps_config [of E s obs goal]
    get_action_ignores_obs_queue get_action_log [of E s obs goal]
  by blast

text \<open>Claim C10 at the state left by \<^verbatim>\<open>reset\<close> on the example policy.\<close>

theorem obs_queue_never_used_witness:
  "rollout_state example_env example_start
   \<and> obs_queue example_start = Some \<lparr>items = [], maxlen = 2\<rparr>
   \<and> obs_queue (snd (get_action example_env example_start example_obs None))
       = Some \<lparr>items = [], maxlen = 2\<rparr>
   \<and> sampler_log (snd (get_action example_env example_start example_obs None)) = [example_obs]"
proof -
  have r: "rollout_state example_env example_start"
    using example_reset by (rule rollout_state.after_reset)
  have q: "obs_queue example_start = Some \<lparr>items = [], maxlen = 2\<rparr>"
    "action_queue example_start = Some \<lparr>items = [], maxlen = 4\<rparr>"
    "sampler_log example_start = []"
    by (simp_all add: example_start_eq example_algo_def)
  from obs_queue_never_used [OF r, of example_obs None] r q
  show ?thesis by simp
qed

end
